theory Spec2Isabelle
  imports Main "HOL-Library.Product_Lexorder"
begin

section \<open>Dates\<close>

text \<open>
  A naive Python \<open>datetime\<close> is compared field by field: year, month, day, then the
  time of day. The model is the tuple (year, month, day, microseconds since midnight)
  under the lexicographic order. \<open>dt y m d\<close> is the constructor
  \<^verbatim>\<open>datetime(y, m, d)\<close>, which raises \<open>ValueError\<close> outside the calendar.
\<close>

type_synonym datetime = "int \<times> int \<times> int \<times> int"

datatype error = ValueError | TypeError | IndexError | KeyError | AttributeError

definition is_leap :: "int \<Rightarrow> bool" where
  "is_leap y = (y mod 4 = 0 \<and> (y mod 400 = 0 \<or> y mod 100 \<noteq> 0))"

definition days_in_month :: "int \<Rightarrow> int \<Rightarrow> int" where
  "days_in_month y m =
     (if m = 2 then (if is_leap y then 29 else 28)
      else if m = 4 \<or> m = 6 \<or> m = 9 \<or> m = 11 then 30
      else 31)"

definition dt :: "int \<Rightarrow> int \<Rightarrow> int \<Rightarrow> error + datetime" where
  "dt y m d =
     (if 1 \<le> y \<and> y \<le> 9999 \<and> 1 \<le> m \<and> m \<le> 12 \<and> 1 \<le> d \<and> d \<le> days_in_month y m
      then Inr (y, m, d, 0)
      else Inl ValueError)"

definition dt_year :: "datetime \<Rightarrow> int" where
  "dt_year t = fst t"

definition dt_month :: "datetime \<Rightarrow> int" where
  "dt_month t = fst (snd t)"

section \<open>The subscription table\<close>

text \<open>
  Python \<open>str\<close> values are byte strings here, in UTF-8: the Polish letters of the
  status labels are two bytes each.
\<close>

definition Nieokreslony :: string where
  "Nieokreslony = ''Nieokre'' @ [CHR 0xC5, CHR 0x9B] @ ''lony''"

definition Nie_mozna_okreslic :: string where
  "Nie_mozna_okreslic =
     ''Nie mo'' @ [CHR 0xC5, CHR 0xBC] @ ''na okre'' @ [CHR 0xC5, CHR 0x9B] @ ''li''
       @ [CHR 0xC4, CHR 0x87]"

definition miesieczny :: string where
  "miesieczny = ''miesi'' @ [CHR 0xC4, CHR 0x99] @ ''czny''"

definition roczny :: string where
  "roczny = ''roczny''"

definition Subskrypcje_klientow :: string where
  "Subskrypcje_klientow = ''Subskrypcje klient'' @ [CHR 0xC3, CHR 0xB3] @ ''w''"

text \<open>
  A cell of the table: \<open>IdMissing\<close> and \<open>DateMissing\<close> stand for the values
  \<^verbatim>\<open>pd.isna\<close> accepts (None, NaN, NaT).
\<close>

datatype ident_cell = IdMissing | IdNumber int | IdText string

datatype date_cell = DateMissing | DateStamp datetime | DateText string

record row =
  ID_Subskrypcji_Klienta :: ident_cell
  Data_wygasniecia :: date_cell
  Data_anulowania :: date_cell
  Typ_pakietu :: "string option"
  ID_Suba_STRIPE :: "string option"

subsection \<open>update_cancellation_dates\<close>

text \<open>
  \<^verbatim>\<open>mask = df['Data anulowania'].isna() & df['Data wygasniecia'].notna()\<close>
  \<^verbatim>\<open>df.loc[mask, 'Data anulowania'] = df['Data wygasniecia']\<close>
\<close>

definition isna_date :: "date_cell \<Rightarrow> bool" where
  "isna_date c = (c = DateMissing)"

definition mask :: "row \<Rightarrow> bool" where
  "mask r = (isna_date (Data_anulowania r) \<and> \<not> isna_date (Data_wygasniecia r))"

definition update_cancellation_dates :: "row list \<Rightarrow> row list \<times> bool list" where
  "update_cancellation_dates df =
     (map (\<lambda>r. if mask r then r\<lparr>Data_anulowania := Data_wygasniecia r\<rparr> else r) df,
      map mask df)"

subsection \<open>calculate_status3\<close>

definition fmt_datetime :: string where
  "fmt_datetime = ''%Y-%m-%d %H:%M:%S''"

definition fmt_date :: string where
  "fmt_date = ''%Y-%m-%d''"

definition isna_ident :: "ident_cell \<Rightarrow> bool" where
  "isna_ident c = (c = IdMissing)"

text \<open>
  The library parser \<^verbatim>\<open>datetime.strptime(text, format)\<close> is a parameter:
  \<open>None\<close> is its \<open>ValueError\<close>. \<open>convert_expiration\<close> is the conversion block of
  \<open>calculate_status3\<close>; it returns the converted value and the blank flag.
\<close>

definition convert_expiration ::
  "(string \<Rightarrow> string \<Rightarrow> datetime option) \<Rightarrow> date_cell \<Rightarrow> bool \<Rightarrow> date_cell \<times> bool" where
  "convert_expiration strptime expiration_date expiration_date_is_blank =
     (if \<not> expiration_date_is_blank then
        (case expiration_date of
           DateStamp t \<Rightarrow> (DateStamp t, expiration_date_is_blank)
         | DateText s \<Rightarrow>
             (case strptime s fmt_datetime of
                Some t \<Rightarrow> (DateStamp t, expiration_date_is_blank)
              | None \<Rightarrow>
                  (case strptime s fmt_date of
                     Some t \<Rightarrow> (DateStamp t, expiration_date_is_blank)
                   | None \<Rightarrow> (expiration_date, True)))
         | DateMissing \<Rightarrow> (expiration_date, expiration_date_is_blank))
      else (expiration_date, expiration_date_is_blank))"

text \<open>
  Comparing with the current time: only a datetime can be compared with a datetime, a
  string raises \<open>TypeError\<close>. \<open>and_then\<close> and \<open>or_else\<close> are Python's short-circuit
  \<open>and\<close> and \<open>or\<close> with a right operand that may raise.
\<close>

definition gt_datetime :: "date_cell \<Rightarrow> datetime \<Rightarrow> error + bool" where
  "gt_datetime c now = (case c of DateStamp t \<Rightarrow> Inr (t > now) | _ \<Rightarrow> Inl TypeError)"

definition le_datetime :: "date_cell \<Rightarrow> datetime \<Rightarrow> error + bool" where
  "le_datetime c now = (case c of DateStamp t \<Rightarrow> Inr (t \<le> now) | _ \<Rightarrow> Inl TypeError)"

definition and_then :: "bool \<Rightarrow> error + bool \<Rightarrow> error + bool" where
  "and_then a b = (if a then b else Inr False)"

definition or_else :: "bool \<Rightarrow> error + bool \<Rightarrow> error + bool" where
  "or_else a b = (if a then Inr True else b)"

definition calculate_status3 ::
  "(string \<Rightarrow> string \<Rightarrow> datetime option) \<Rightarrow> datetime \<Rightarrow> row \<Rightarrow> error + string" where
  "calculate_status3 strptime current_datetime r =
     (let expiration_date = Data_wygasniecia r;
          subscription_client_id = ID_Subskrypcji_Klienta r
      in if isna_ident subscription_client_id \<or> subscription_client_id = IdText []
         then Inr Nieokreslony
         else
           let expiration_date_is_blank =
                 (isna_date expiration_date \<or> expiration_date = DateText []);
               converted = convert_expiration strptime expiration_date expiration_date_is_blank;
               expiration_date = fst converted;
               expiration_date_is_blank = snd converted
           in case and_then (\<not> expiration_date_is_blank)
                     (gt_datetime expiration_date current_datetime) of
                Inl e \<Rightarrow> Inl e
              | Inr True \<Rightarrow> Inr ''Anulowana (aktywna)''
              | Inr False \<Rightarrow>
                  (case or_else expiration_date_is_blank
                          (gt_datetime expiration_date current_datetime) of
                     Inl e \<Rightarrow> Inl e
                   | Inr True \<Rightarrow> Inr ''Aktywna''
                   | Inr False \<Rightarrow>
                       (case and_then (\<not> expiration_date_is_blank)
                               (le_datetime expiration_date current_datetime) of
                          Inl e \<Rightarrow> Inl e
                        | Inr True \<Rightarrow> Inr ''Anulowana''
                        | Inr False \<Rightarrow> Inr Nieokreslony)))"

text \<open>
  The lifecycle state as the specification words it: five ordered branches, first match
  wins, over the presence of the customer-subscription identity and the expiration date
  that the row effectively carries (none when the cell is blank or its text parses under
  neither format).
\<close>

definition has_identity :: "row \<Rightarrow> bool" where
  "has_identity r =
     (ID_Subskrypcji_Klienta r \<noteq> IdMissing \<and> ID_Subskrypcji_Klienta r \<noteq> IdText [])"

definition effective_expiration ::
  "(string \<Rightarrow> string \<Rightarrow> datetime option) \<Rightarrow> row \<Rightarrow> datetime option" where
  "effective_expiration strptime r =
     (case Data_wygasniecia r of
        DateMissing \<Rightarrow> None
      | DateStamp t \<Rightarrow> Some t
      | DateText s \<Rightarrow>
          (if s = [] then None
           else case strptime s fmt_datetime of
                  Some t \<Rightarrow> Some t
                | None \<Rightarrow> strptime s fmt_date))"

definition in_future :: "datetime option \<Rightarrow> datetime \<Rightarrow> bool" where
  "in_future expiration now = (case expiration of Some e \<Rightarrow> e > now | None \<Rightarrow> False)"

definition lifecycle_state :: "bool \<Rightarrow> datetime option \<Rightarrow> datetime \<Rightarrow> string" where
  "lifecycle_state identity expiration now =
     (if \<not> identity then Nieokreslony
      else if identity \<and> expiration \<noteq> None \<and> in_future expiration now
        then ''Anulowana (aktywna)''
      else if identity \<and> (expiration = None \<or> in_future expiration now)
        then ''Aktywna''
      else if expiration \<noteq> None \<and> \<not> in_future expiration now
        then ''Anulowana''
      else Nieokreslony)"

text \<open>
  A stand-in for the library parser, used where a concrete parser is needed to evaluate
  \<open>calculate_status3\<close>: it accepts the zero-padded forms \<open>YYYY-MM-DD\<close> and
  \<open>YYYY-MM-DD HH:MM:SS\<close> of the two formats and nothing else.
\<close>

fun digits_value :: "string \<Rightarrow> nat option" where
  "digits_value [] = Some 0"
| "digits_value (c # cs) =
     (if 48 \<le> (of_char c :: nat) \<and> (of_char c :: nat) \<le> 57
      then (case digits_value cs of
              Some v \<Rightarrow> Some ((of_char c - 48) * 10 ^ length cs + v)
            | None \<Rightarrow> None)
      else None)"

definition parse_padded_date :: "string \<Rightarrow> datetime option" where
  "parse_padded_date s =
     (if length s = 10 \<and> s ! 4 = CHR ''-'' \<and> s ! 7 = CHR ''-'' then
        (case (digits_value (take 4 s), digits_value (take 2 (drop 5 s)),
               digits_value (drop 8 s)) of
           (Some y, Some m, Some d) \<Rightarrow>
             (case dt (int y) (int m) (int d) of Inr t \<Rightarrow> Some t | Inl e \<Rightarrow> None)
         | _ \<Rightarrow> None)
      else None)"

definition parse_padded_time :: "string \<Rightarrow> int option" where
  "parse_padded_time s =
     (if length s = 8 \<and> s ! 2 = CHR '':'' \<and> s ! 5 = CHR '':'' then
        (case (digits_value (take 2 s), digits_value (take 2 (drop 3 s)),
               digits_value (drop 6 s)) of
           (Some h, Some mi, Some sec) \<Rightarrow>
             (if h < 24 \<and> mi < 60 \<and> sec < 60
              then Some (((int h * 60 + int mi) * 60 + int sec) * 1000000)
              else None)
         | _ \<Rightarrow> None)
      else None)"

definition strptime_padded :: "string \<Rightarrow> string \<Rightarrow> datetime option" where
  "strptime_padded s fmt =
     (if fmt = fmt_date then parse_padded_date s
      else if fmt = fmt_datetime \<and> length s = 19 \<and> s ! 10 = CHR '' '' then
        (case (parse_padded_date (take 10 s), parse_padded_time (drop 11 s)) of
           (Some (y, m, d, z), Some us) \<Rightarrow> Some (y, m, d, us)
         | _ \<Rightarrow> None)
      else None)"

section \<open>Text of numbers\<close>

text \<open>
  Python's \<^verbatim>\<open>str(n)\<close> of an integer and \<^verbatim>\<open>s.zfill(width)\<close>. The text of a number is
  ASCII: an optional minus sign and the decimal digits. \<open>ascii_digit\<close> and
  \<open>int_of_digits\<close> read such a text back: a digit \<open>0\<close> to \<open>9\<close>, and the number a text of
  them denotes.
\<close>

function str_nat :: "nat \<Rightarrow> string" where
  "str_nat n =
     (if n < 10 then [char_of (48 + int n)]
      else str_nat (n div 10) @ [char_of (48 + int (n mod 10))])"
  by pat_completeness auto
termination
  by (relation "measure (\<lambda>n. n)") auto

declare str_nat.simps [simp del]

definition str_int :: "int \<Rightarrow> string" where
  "str_int i = (if i < 0 then CHR ''-'' # str_nat (nat (- i)) else str_nat (nat i))"



definition zfill :: "nat \<Rightarrow> string \<Rightarrow> string" where
  "zfill width s =
     (case s of
        [] \<Rightarrow> replicate width (CHR ''0'')
      | c # cs \<Rightarrow>
          if c = CHR ''+'' \<or> c = CHR ''-''
          then c # replicate (width - length s) (CHR ''0'') @ cs
          else replicate (width - length s) (CHR ''0'') @ s)"

text \<open>
  The interpreter refuses, with \<open>ValueError\<close>, to convert between \<open>int\<close> and \<open>str\<close> more
  digits than \<^verbatim>\<open>sys.int_max_str_digits\<close>, 4300 by default (Python 3.11; the sign is not
  counted). \<open>str_int_limited\<close> is \<^verbatim>\<open>str(n)\<close> under that limit.
\<close>

definition int_max_str_digits :: int where
  "int_max_str_digits = 4300"

definition str_int_limited :: "int \<Rightarrow> error + string" where
  "str_int_limited i =
     (if int_max_str_digits < int (length (str_nat (nat \<bar>i\<bar>))) then Inl ValueError
      else Inr (str_int i))"

subsection \<open>Unicode text\<close>




definition decimal_zeros :: "int list" where
  "decimal_zeros =
     [48, 1632, 1776, 1984, 2406, 2534, 2662, 2790, 2918, 3046, 3174, 3302, 3430, 3558,
      3664, 3792, 3872, 4160, 4240, 6112, 6160, 6470, 6608, 6784, 6800, 6992, 7088, 7232,
      7248, 42528, 43216, 43264, 43472, 43504, 43600, 44016, 65296, 66720, 68912, 69734,
      69872, 69942, 70096, 70384, 70736, 70864, 71248, 71360, 71472, 71904, 72016, 72784,
      73040, 73120, 92768, 92864, 93008, 120782, 120792, 120802, 120812, 120822, 123200,
      123632, 125264, 130032]"




definition decimal :: "int \<Rightarrow> int option" where
  "decimal c = map_option (\<lambda>zero. c - zero) (find (\<lambda>zero. zero \<le> c \<and> c \<le> zero + 9) decimal_zeros)"







section \<open>Tax identifiers\<close>

subsection \<open>extract_client_nip\<close>

text \<open>
  A CRM task is a JSON object; an object is a list of key-value pairs with distinct
  keys. JSON numbers are integers here: floats and booleans are outside the model.
  \<^verbatim>\<open>str(int(nip))\<close> is inside the function's \<^verbatim>\<open>try\<close>: when it raises, the function
  returns the empty text.
\<close>

datatype json = JNull | JInt int | JStr string | JList "json list" | JObj "(string \<times> json) list"

definition extract_client_nip :: "(string \<times> json) list \<Rightarrow> string" where
  "extract_client_nip task =
     (case map_of task ''client'' of
        Some (JObj client) \<Rightarrow>
          (case map_of client ''company'' of
             Some (JObj company) \<Rightarrow>
               (let nip = (case map_of company ''nip'' of None \<Rightarrow> JStr [] | Some v \<Rightarrow> v)
                in case nip of
                     JInt n \<Rightarrow>
                       if n > 0 then
                         (case str_int_limited n of
                            Inl e \<Rightarrow> []
                          | Inr nip_str \<Rightarrow>
                              if length nip_str < 10 then zfill 10 nip_str else nip_str)
                       else []
                   | JStr t \<Rightarrow> if t \<noteq> [] then t else []
                   | _ \<Rightarrow> [])
           | _ \<Rightarrow> [])
      | _ \<Rightarrow> [])"

definition crm_task :: "json \<Rightarrow> (string \<times> json) list" where
  "crm_task nip =
     [(''_id'', JStr ''t1''), (''client'', JObj [(''company'', JObj [(''nip'', nip)])])]"

subsection \<open>process_nip\<close>







section \<open>Sheet ranges\<close>

subsection \<open>clear_excel_worksheet\<close>

text \<open>\<^verbatim>\<open>text.split(sep)\<close> for a one-character separator.\<close>

fun split_on :: "char \<Rightarrow> string \<Rightarrow> string list" where
  "split_on sep [] = [[]]"
| "split_on sep (c # cs) =
     (if c = sep then [] # split_on sep cs
      else (case split_on sep cs of w # ws \<Rightarrow> (c # w) # ws | [] \<Rightarrow> [[c]]))"

text \<open>
  The address \<open>clear_excel_worksheet\<close> clears. Indexing the split at 1 raises
  \<open>IndexError\<close> when the column range has no colon.
\<close>

definition clear_range :: "string option \<Rightarrow> error + string" where
  "clear_range column_range =
     (case column_range of
        Some cr \<Rightarrow>
          if cr \<noteq> [] then
            (case split_on (CHR '':'') cr of
               start_col # end_col # rest \<Rightarrow> Inr (start_col @ ''2:'' @ end_col @ ''15000'')
             | _ \<Rightarrow> Inl IndexError)
          else Inr ''2:15000''
      | None \<Rightarrow> Inr ''2:15000'')"

subsection \<open>update_excel_worksheet_directly\<close>

function column_letter_loop :: "int \<Rightarrow> string \<Rightarrow> string" where
  "column_letter_loop col_num result =
     (if col_num > 0 then
        (let col_num = col_num - 1;
             result = char_of (col_num mod 26 + 65) # result
         in column_letter_loop (col_num div 26) result)
      else result)"
  by pat_completeness auto
termination
  by (relation "measure (\<lambda>(col_num, result). nat col_num)") auto

declare column_letter_loop.simps [simp del]

definition get_column_letter :: "int \<Rightarrow> string" where
  "get_column_letter col_num = column_letter_loop col_num []"

text \<open>
  What \<open>update_excel_worksheet_directly\<close> clears and where it writes, for a table of
  \<open>num_rows\<close> records and \<open>num_cols\<close> fields: it always clears first, writes nothing
  for an empty table (\<open>None\<close>), and otherwise writes the range address.
\<close>

definition sheet_clear_range :: "string \<Rightarrow> error + string" where
  "sheet_clear_range worksheet_name =
     (if worksheet_name = Subskrypcje_klientow then clear_range (Some ''C:U'')
      else clear_range None)"

definition range_address :: "string \<Rightarrow> nat \<Rightarrow> nat \<Rightarrow> string \<Rightarrow> string option" where
  "range_address worksheet_name num_rows num_cols start_column =
     (if num_rows = 0 then None
      else if worksheet_name = Subskrypcje_klientow then
        (let start_col_num = 3;
             end_col_num = start_col_num + int num_cols - 1;
             start_col_letter = get_column_letter start_col_num;
             end_col_letter = get_column_letter end_col_num
         in Some (start_col_letter @ ''2:'' @ end_col_letter @ str_int (int num_rows + 1)))
      else
        (let end_col = get_column_letter (int num_cols)
         in Some (start_column @ ''2:'' @ end_col @ str_int (int num_rows + 1))))"

text \<open>
  The bijective base-26 value of a column name, as the specification words it:
  \<open>A\<close> is 1, \<open>Z\<close> is 26, and each further letter to the left counts 26 times more.
\<close>

definition letter_value :: "char \<Rightarrow> int" where
  "letter_value c = of_char c - 64"

definition column_number :: "string \<Rightarrow> int" where
  "column_number s = foldl (\<lambda>acc c. acc * 26 + letter_value c) 0 s"

definition is_upper :: "char \<Rightarrow> bool" where
  "is_upper c = (65 \<le> (of_char c :: int) \<and> (of_char c :: int) \<le> 90)"

section \<open>Invoice status\<close>

text \<open>
  A row of the invoice table: the owning payment subscription (\<open>None\<close> when the invoice
  has none), the creation date and the payment status.
\<close>

record invoice =
  ID_Subskrypcji :: "string option"
  Data_Utworzenia :: datetime
  Status_Faktury :: string

subsection \<open>calculate_invoice_status_chosen_month\<close>

text \<open>
  The configuration values \<open>month\<close>, \<open>year\<close> and \<open>yearly_subscription_start_year\<close> are the
  parameters \<open>chosen_month\<close>, \<open>chosen_year\<close> and \<open>yearly_start_year\<close>. The two
  \<open>datetime\<close> constructions of the yearly branch may raise.
\<close>

definition calculate_invoice_status_chosen_month ::
  "row \<Rightarrow> invoice list \<Rightarrow> int \<Rightarrow> int \<Rightarrow> int \<Rightarrow> error + string" where
  "calculate_invoice_status_chosen_month r invoices_df chosen_month chosen_year yearly_start_year =
     (if ID_Suba_STRIPE r = None \<or> ID_Suba_STRIPE r = Some [] then Inr Nie_mozna_okreslic
      else
        (let subscription_id = ID_Suba_STRIPE r;
             package_type = Typ_pakietu r
         in if package_type = Some miesieczny then
              (case filter (\<lambda>i. ID_Subskrypcji i = subscription_id \<and>
                                 dt_month (Data_Utworzenia i) = chosen_month \<and>
                                 dt_year (Data_Utworzenia i) = chosen_year) invoices_df of
                 i # rest \<Rightarrow> Inr (Status_Faktury i)
               | [] \<Rightarrow> Inr [])
            else if package_type = Some roczny then
              (case dt yearly_start_year chosen_month 1 of
                 Inl e \<Rightarrow> Inl e
               | Inr start_date \<Rightarrow>
                   (case dt chosen_year chosen_month 30 of
                      Inl e \<Rightarrow> Inl e
                    | Inr end_date \<Rightarrow>
                        (case filter (\<lambda>i. ID_Subskrypcji i = subscription_id \<and>
                                           start_date \<le> Data_Utworzenia i \<and>
                                           Data_Utworzenia i \<le> end_date) invoices_df of
                           i # rest \<Rightarrow> Inr (Status_Faktury i)
                         | [] \<Rightarrow> Inr [])))
            else Inr []))"

subsection \<open>calculate_invoice_status_last_2_months\<close>

definition calculate_invoice_status_last_2_months ::
  "row \<Rightarrow> invoice list \<Rightarrow> int \<Rightarrow> int \<Rightarrow> int \<Rightarrow> int \<Rightarrow> error + string" where
  "calculate_invoice_status_last_2_months r invoices_df month1 month2 year yearly_start_year =
     (if ID_Suba_STRIPE r = None \<or> ID_Suba_STRIPE r = Some [] then Inr Nie_mozna_okreslic
      else
        (let subscription_id = ID_Suba_STRIPE r;
             package_type = Typ_pakietu r
         in if package_type = Some miesieczny then
              (case dt year month1 1 of
                 Inl e \<Rightarrow> Inl e
               | Inr start_date \<Rightarrow>
                   (case dt year month2 31 of
                      Inl e \<Rightarrow> Inl e
                    | Inr end_date \<Rightarrow>
                        (if filter (\<lambda>i. ID_Subskrypcji i = subscription_id \<and>
                                         start_date \<le> Data_Utworzenia i \<and>
                                         Data_Utworzenia i \<le> end_date \<and>
                                         Status_Faktury i = ''paid'') invoices_df \<noteq> []
                         then Inr ''paid'' else Inr [])))
            else if package_type = Some roczny then
              (case dt yearly_start_year month2 1 of
                 Inl e \<Rightarrow> Inl e
               | Inr start_date \<Rightarrow>
                   (case dt year month2 31 of
                      Inl e \<Rightarrow> Inl e
                    | Inr end_date \<Rightarrow>
                        (if filter (\<lambda>i. ID_Subskrypcji i = subscription_id \<and>
                                         start_date \<le> Data_Utworzenia i \<and>
                                         Data_Utworzenia i \<le> end_date \<and>
                                         Status_Faktury i = ''paid'') invoices_df \<noteq> []
                         then Inr ''paid'' else Inr [])))
            else Inr []))"

text \<open>
  The invoices a yearly row's window holds, as the specification words it: those of the
  subscription created from day 1 of the chosen month in the start year to day 30 of
  the chosen month in the chosen year.
\<close>

definition in_yearly_window :: "string \<Rightarrow> int \<Rightarrow> int \<Rightarrow> int \<Rightarrow> invoice \<Rightarrow> bool" where
  "in_yearly_window sid chosen_month chosen_year yearly_start_year i =
     (ID_Subskrypcji i = Some sid \<and>
      (yearly_start_year, chosen_month, 1, 0) \<le> Data_Utworzenia i \<and>
      Data_Utworzenia i \<le> (chosen_year, chosen_month, 30, 0))"

definition example_invoices :: "invoice list" where
  "example_invoices =
     [\<lparr>ID_Subskrypcji = Some ''sub_9'', Data_Utworzenia = (2025, 7, 2, 0), Status_Faktury = ''open''\<rparr>,
      \<lparr>ID_Subskrypcji = Some ''sub_1'', Data_Utworzenia = (2025, 7, 31, 0), Status_Faktury = ''void''\<rparr>,
      \<lparr>ID_Subskrypcji = Some ''sub_1'', Data_Utworzenia = (2024, 9, 30, 0), Status_Faktury = ''paid''\<rparr>,
      \<lparr>ID_Subskrypcji = None, Data_Utworzenia = (2025, 7, 3, 0), Status_Faktury = ''draft''\<rparr>,
      \<lparr>ID_Subskrypcji = Some ''sub_1'', Data_Utworzenia = (2025, 7, 30, 0), Status_Faktury = ''open''\<rparr>]"

section \<open>Reconciliation join\<close>

text \<open>
  The columns of the two Calendesk tables the join and the exclusion filter read: of a
  customer subscription its \<open>id\<close>, \<open>subscription_id\<close>, \<open>status\<close> and \<open>user.id\<close>, of a
  plan its \<open>id\<close> and \<open>price.recurring_interval\<close>. A joined row carries the customer
  subscription, and the plan's \<open>id\<close> (\<open>id_y\<close>) and interval, both missing when no plan
  matches.
\<close>

record user_subscription =
  id_x :: int
  subscription_id :: int
  status :: string
  user_id :: int












section \<open>Paged fetching\<close>

subsection \<open>make_api_request_with_retry\<close>

text \<open>
  The body of a page response, as the fetchers read it with \<^verbatim>\<open>.get\<close>: the record
  list under \<open>data\<close> (empty when the key is absent) and the pagination fields
  \<open>last_page\<close>, \<open>total\<close> and \<open>next_page_url\<close>, each absent (\<open>None\<close>) or any JSON
  value, null included. One attempt of \<^verbatim>\<open>requests.get\<close> either returns a response
  or raises a timeout or another request exception.
\<close>

record 'a page_body =
  data :: "'a list"
  last_page :: "json option"
  total_records :: "json option"
  next_page_url :: "json option"

record 'a response =
  status_code :: int
  json :: "'a page_body"

datatype 'a attempt = Responded "'a response" | Timeout | RequestException

text \<open>
  The retry loop \<^verbatim>\<open>for attempt in range(max_retries)\<close>. \<open>send attempt\<close> is what the
  network does at that attempt; \<open>slept\<close> collects the arguments of \<^verbatim>\<open>time.sleep\<close>
  in call order. Falling out of the loop returns \<open>None\<close>.
\<close>

function retry_loop ::
  "(nat \<Rightarrow> 'a attempt) \<Rightarrow> nat \<Rightarrow> nat \<Rightarrow> nat \<Rightarrow> nat list \<Rightarrow> 'a response option \<times> nat list" where
  "retry_loop send max_retries delay attempt slept =
     (if attempt < max_retries then
        (case send attempt of
           Responded response \<Rightarrow>
             if status_code response = 200 then (Some response, slept)
             else if status_code response = 429 then
               retry_loop send max_retries delay (attempt + 1) (slept @ [delay * 2 ^ attempt])
             else if status_code response \<ge> 500 then
               retry_loop send max_retries delay (attempt + 1) (slept @ [delay * (attempt + 1)])
             else (Some response, slept)
         | Timeout \<Rightarrow>
             if attempt < max_retries - 1 then
               retry_loop send max_retries delay (attempt + 1) (slept @ [delay * (attempt + 1)])
             else retry_loop send max_retries delay (attempt + 1) slept
         | RequestException \<Rightarrow>
             if attempt < max_retries - 1 then
               retry_loop send max_retries delay (attempt + 1) (slept @ [delay * (attempt + 1)])
             else retry_loop send max_retries delay (attempt + 1) slept)
      else (None, slept))"
  by pat_completeness auto
termination
  by (relation "measure (\<lambda>(send, max_retries, delay, attempt, slept). max_retries - attempt)") auto

declare retry_loop.simps [simp del]

definition make_api_request_with_retry ::
  "(nat \<Rightarrow> 'a attempt) \<Rightarrow> nat \<Rightarrow> nat \<Rightarrow> 'a response option \<times> nat list" where
  "make_api_request_with_retry send max_retries delay = retry_loop send max_retries delay 0 []"

text \<open>
  The retry policy in closed form. An attempt is retryable when it is rate limited (429),
  a server error (500 and above) or an exception. \<open>backoff\<close> is what the loop sleeps
  after a retryable attempt; \<open>claimed_backoff\<close> is the wait the specification states,
  which also waits after an exception on the last attempt.
\<close>

definition retryable :: "'a attempt \<Rightarrow> bool" where
  "retryable x =
     (case x of Responded r \<Rightarrow> status_code r = 429 \<or> status_code r \<ge> 500 | _ \<Rightarrow> True)"

definition response_of :: "'a attempt \<Rightarrow> 'a response option" where
  "response_of x = (case x of Responded r \<Rightarrow> Some r | _ \<Rightarrow> None)"

definition backoff :: "nat \<Rightarrow> nat \<Rightarrow> nat \<Rightarrow> 'a attempt \<Rightarrow> nat list" where
  "backoff max_retries delay a x =
     (case x of
        Responded r \<Rightarrow> if status_code r = 429 then [delay * 2 ^ a] else [delay * (a + 1)]
      | _ \<Rightarrow> if a < max_retries - 1 then [delay * (a + 1)] else [])"

definition claimed_backoff :: "nat \<Rightarrow> nat \<Rightarrow> 'a attempt \<Rightarrow> nat list" where
  "claimed_backoff delay a x =
     (case x of
        Responded r \<Rightarrow> if status_code r = 429 then [delay * 2 ^ a] else [delay * (a + 1)]
      | _ \<Rightarrow> [delay * (a + 1)])"

definition failed_attempts :: "(nat \<Rightarrow> 'a attempt) \<Rightarrow> nat \<Rightarrow> nat \<Rightarrow> nat" where
  "failed_attempts send max_retries a =
     length (takeWhile (\<lambda>b. retryable (send b)) [a..<max_retries])"

subsection \<open>fetch_calendesk_data and fetch_calendesk_data_all\<close>

text \<open>
  \<open>net page attempt\<close> is the outcome of the given attempt at requesting the given page.
  Both fetchers call \<open>make_api_request_with_retry\<close> with its default budget of 3
  attempts and delay of 2 seconds, and go on only with a response of status 200.
\<close>

definition request :: "(int \<Rightarrow> nat \<Rightarrow> 'a attempt) \<Rightarrow> int \<Rightarrow> 'a response option" where
  "request net page = fst (make_api_request_with_retry (net page) 3 2)"

text \<open>
  Python's truth value of a JSON value, and its order comparisons with an integer, which
  raise \<open>TypeError\<close> for anything but a number.
\<close>

fun truthy :: "json \<Rightarrow> bool" where
  "truthy JNull = False"
| "truthy (JInt n) = (n \<noteq> 0)"
| "truthy (JStr t) = (t \<noteq> [])"
| "truthy (JList vs) = (vs \<noteq> [])"
| "truthy (JObj kvs) = (kvs \<noteq> [])"

definition falsy :: "json option \<Rightarrow> bool" where
  "falsy v = (case v of None \<Rightarrow> True | Some j \<Rightarrow> \<not> truthy j)"

definition int_le_json :: "int \<Rightarrow> json \<Rightarrow> error + bool" where
  "int_le_json k v = (case v of JInt n \<Rightarrow> Inr (k \<le> n) | _ \<Rightarrow> Inl TypeError)"

definition int_ge_json :: "int \<Rightarrow> json \<Rightarrow> error + bool" where
  "int_ge_json k v = (case v of JInt n \<Rightarrow> Inr (k \<ge> n) | _ \<Rightarrow> Inl TypeError)"

definition json_le_int :: "json \<Rightarrow> int \<Rightarrow> error + bool" where
  "json_le_int v k = (case v of JInt n \<Rightarrow> Inr (n \<le> k) | _ \<Rightarrow> Inl TypeError)"

text \<open>
  What a test that may raise did: \<open>raised\<close> is the exception, if any, and \<open>holds\<close>
  the truth value it returned.
\<close>

definition raised :: "error + bool \<Rightarrow> error option" where
  "raised t = (case t of Inl e \<Rightarrow> Some e | Inr b \<Rightarrow> None)"

definition holds :: "error + bool \<Rightarrow> bool" where
  "holds t = (case t of Inl e \<Rightarrow> False | Inr b \<Rightarrow> b)"

text \<open>
  The loop \<^verbatim>\<open>while current_page <= total_pages\<close> of \<open>fetch_calendesk_data\<close>.
  \<open>total_pages\<close> is whatever the last response had under \<open>last_page\<close>, so comparing
  with it may raise. The server may raise \<open>last_page\<close> at every response, so the loop
  need not end: \<open>None\<close> is the run that never returns.
\<close>

partial_function (option) fetch_pages ::
  "(int \<Rightarrow> nat \<Rightarrow> 'a attempt) \<Rightarrow> int \<Rightarrow> json \<Rightarrow> 'a list \<Rightarrow> (error + 'a list) option" where
  "fetch_pages net current_page total_pages all_data =
     (case raised (int_le_json current_page total_pages) of
        Some e \<Rightarrow> Some (Inl e)
      | None \<Rightarrow>
          if holds (int_le_json current_page total_pages) then
            (case request net current_page of
               Some response \<Rightarrow>
                 if status_code response = 200 then
                   (if data (json response) \<noteq> [] then
                      (let all_data = all_data @ data (json response);
                           total_pages =
                             (case last_page (json response) of
                                None \<Rightarrow> total_pages
                              | Some updated_total_pages \<Rightarrow> updated_total_pages);
                           at_end = and_then (falsy (next_page_url (json response)))
                                      (int_ge_json current_page total_pages)
                       in case raised at_end of
                            Some e \<Rightarrow> Some (Inl e)
                          | None \<Rightarrow>
                              if holds at_end then Some (Inr all_data)
                              else fetch_pages net (current_page + 1) total_pages all_data)
                    else Some (Inr all_data))
                 else Some (Inr all_data)
             | None \<Rightarrow> Some (Inr all_data))
          else Some (Inr all_data))"

declare fetch_pages.simps [code]

text \<open>
  The checks \<open>fetch_calendesk_data\<close> makes after the loop. They print only, but they
  can raise: subtracting the record count from a declared total that is not a number
  (\<open>TypeError\<close>), taking the keys of a first record that is not an object
  (\<open>AttributeError\<close>), and, when the first record has an \<open>id\<close>, reading
  \<^verbatim>\<open>record['id']\<close> of every record (\<open>KeyError\<close> for an object without it,
  \<open>TypeError\<close> for a record that is not an object) and building the set of the ids
  (\<open>TypeError\<close> for a list or an object, which cannot be hashed). \<open>None\<close>: no check
  raises.
\<close>

fun record_id :: "json \<Rightarrow> error + json" where
  "record_id (JObj kvs) = (case map_of kvs ''id'' of Some v \<Rightarrow> Inr v | None \<Rightarrow> Inl KeyError)"
| "record_id v = Inl TypeError"

fun hashable :: "json \<Rightarrow> bool" where
  "hashable (JList vs) = False"
| "hashable (JObj kvs) = False"
| "hashable v = True"

fun collect_ids :: "json list \<Rightarrow> error + json list" where
  "collect_ids [] = Inr []"
| "collect_ids (r # rs) =
     (case record_id r of
        Inl e \<Rightarrow> Inl e
      | Inr v \<Rightarrow> (case collect_ids rs of Inl e \<Rightarrow> Inl e | Inr vs \<Rightarrow> Inr (v # vs)))"

definition post_fetch_checks :: "json list \<Rightarrow> json \<Rightarrow> error option" where
  "post_fetch_checks all_data declared_total =
     (case declared_total of
        JInt n \<Rightarrow>
          (case all_data of
             [] \<Rightarrow> None
           | first # rest \<Rightarrow>
               (case first of
                  JObj kvs \<Rightarrow>
                    if map_of kvs ''id'' \<noteq> None then
                      (case collect_ids all_data of
                         Inl e \<Rightarrow> Some e
                       | Inr ids \<Rightarrow> if list_all hashable ids then None else Some TypeError)
                    else None
                | _ \<Rightarrow> Some AttributeError))
      | _ \<Rightarrow> Some TypeError)"

text \<open>A record the checks accept: an object whose \<open>id\<close> can be hashed.\<close>

definition has_plain_id :: "json \<Rightarrow> bool" where
  "has_plain_id r = (case record_id r of Inr v \<Rightarrow> hashable v | Inl e \<Rightarrow> False)"

text \<open>
  \<open>fetch_calendesk_data\<close> on records that are JSON values: the first request, the early
  return of a single page (which skips the checks), the loop and the checks.
\<close>

definition fetch_calendesk_data ::
  "(int \<Rightarrow> nat \<Rightarrow> json attempt) \<Rightarrow> (error + json list) option" where
  "fetch_calendesk_data net =
     (case request net 1 of
        None \<Rightarrow> Some (Inr [])
      | Some response \<Rightarrow>
          if status_code response \<noteq> 200 then Some (Inr [])
          else
            (let total_pages = (case last_page (json response) of None \<Rightarrow> JInt 1 | Some v \<Rightarrow> v);
                 declared_total =
                   (case total_records (json response) of None \<Rightarrow> JInt 0 | Some v \<Rightarrow> v);
                 all_data = data (json response)
             in case json_le_int total_pages 1 of
                  Inl e \<Rightarrow> Some (Inl e)
                | Inr True \<Rightarrow> Some (Inr all_data)
                | Inr False \<Rightarrow>
                    (case fetch_pages net 2 total_pages all_data of
                       None \<Rightarrow> None
                     | Some (Inl e) \<Rightarrow> Some (Inl e)
                     | Some (Inr all_data) \<Rightarrow>
                         (case post_fetch_checks all_data declared_total of
                            Some e \<Rightarrow> Some (Inl e)
                          | None \<Rightarrow> Some (Inr all_data)))))"

text \<open>
  \<open>fetch_calendesk_data_all\<close>: the same request per page, at most \<open>max_pages = 10\<close>
  pages, stopping at the first page without data or without a 200 response.
\<close>

definition max_pages :: int where
  "max_pages = 10"

function fetch_all_loop ::
  "(int \<Rightarrow> nat \<Rightarrow> 'a attempt) \<Rightarrow> int \<Rightarrow> 'a list \<Rightarrow> 'a list" where
  "fetch_all_loop net current_page all_data =
     (if current_page \<le> max_pages then
        (case request net current_page of
           Some response \<Rightarrow>
             if status_code response = 200 then
               (if data (json response) \<noteq> []
                then fetch_all_loop net (current_page + 1) (all_data @ data (json response))
                else all_data)
             else all_data
         | None \<Rightarrow> all_data)
      else all_data)"
  by pat_completeness auto
termination
  by (relation "measure (\<lambda>(net, current_page, all_data). nat (max_pages + 1 - current_page))") auto

declare fetch_all_loop.simps [simp del]

definition fetch_calendesk_data_all :: "(int \<Rightarrow> nat \<Rightarrow> 'a attempt) \<Rightarrow> 'a list" where
  "fetch_calendesk_data_all net = fetch_all_loop net 1 []"

subsection \<open>A paged server\<close>

text \<open>
  The records of a server, split into its pages: \<open>pages ! (p - 1)\<close> is page \<open>p\<close>, and
  the server's total is \<open>length (concat pages)\<close>. \<open>serves net pages p\<close>: the request
  for page \<open>p\<close> succeeds with that page, the page count and the total.
  \<open>served_through net pages k\<close>: pages 1 to \<open>k\<close> are served. \<open>exhausts_retries\<close>: each
  of the three attempts at the page is rate limited, a server error or an exception.
  \<open>no_data\<close>: the request for the page brings no records.
\<close>

definition serves :: "(int \<Rightarrow> nat \<Rightarrow> 'a attempt) \<Rightarrow> 'a list list \<Rightarrow> nat \<Rightarrow> bool" where
  "serves net pages p =
     (case request net (int p) of
        Some r \<Rightarrow>
          status_code r = 200 \<and> data (json r) = pages ! (p - 1) \<and>
          last_page (json r) = Some (JInt (int (length pages))) \<and>
          total_records (json r) = Some (JInt (int (length (concat pages))))
      | None \<Rightarrow> False)"

definition served_through :: "(int \<Rightarrow> nat \<Rightarrow> 'a attempt) \<Rightarrow> 'a list list \<Rightarrow> nat \<Rightarrow> bool" where
  "served_through net pages k = list_all (serves net pages) [1..<Suc k]"

definition exhausts_retries :: "(int \<Rightarrow> nat \<Rightarrow> 'a attempt) \<Rightarrow> int \<Rightarrow> bool" where
  "exhausts_retries net page = list_all (\<lambda>a. retryable (net page a)) [0..<3]"

definition no_data :: "(int \<Rightarrow> nat \<Rightarrow> 'a attempt) \<Rightarrow> nat \<Rightarrow> bool" where
  "no_data net p =
     (case request net (int p) of
        Some r \<Rightarrow> status_code r \<noteq> 200 \<or> data (json r) = []
      | None \<Rightarrow> True)"

text \<open>
  A server that answers every attempt at once: page \<open>p\<close> of \<open>pages\<close> when it exists,
  an empty page otherwise. \<open>failing_net\<close> is the same server behind a network that
  times out on every attempt at page 2. \<open>rec n\<close> is a record with the id \<open>n\<close>.
\<close>

definition paged_net :: "'a list list \<Rightarrow> int \<Rightarrow> nat \<Rightarrow> 'a attempt" where
  "paged_net pages page attempt =
     Responded \<lparr>status_code = 200,
       json = \<lparr>data = (if 1 \<le> page \<and> page \<le> int (length pages) then pages ! (nat page - 1) else []),
               last_page = Some (JInt (int (length pages))),
               total_records = Some (JInt (int (length (concat pages)))),
               next_page_url = (if page < int (length pages) then Some (JStr ''next'') else None)\<rparr>\<rparr>"

definition failing_net :: "'a list list \<Rightarrow> int \<Rightarrow> nat \<Rightarrow> 'a attempt" where
  "failing_net pages page attempt = (if page = 2 then Timeout else paged_net pages page attempt)"

definition rec :: "int \<Rightarrow> json" where
  "rec n = JObj [(''id'', JInt n), (''status'', JStr ''active'')]"

definition three_pages :: "json list list" where
  "three_pages = [[rec 1, rec 2], [rec 3, rec 4], [rec 5]]"

definition eleven_pages :: "json list list" where
  "eleven_pages =
     [[rec 1], [rec 2], [rec 3], [rec 4], [rec 5], [rec 6], [rec 7], [rec 8], [rec 9],
      [rec 10], [rec 11]]"

text \<open>Two pages whose second record has no \<open>id\<close>.\<close>

definition ragged_pages :: "json list list" where
  "ragged_pages = [[rec 1], [JObj [(''status'', JStr ''active'')]]]"

text \<open>A server whose responses carry \<^verbatim>\<open>"last_page": null\<close>.\<close>

definition null_last_page_net :: "int \<Rightarrow> nat \<Rightarrow> json attempt" where
  "null_last_page_net page attempt =
     Responded \<lparr>status_code = 200,
       json = \<lparr>data = [rec page], last_page = Some JNull, total_records = Some (JInt 1),
               next_page_url = None\<rparr>\<rparr>"

subsection \<open>Example networks\<close>

definition empty_body :: "nat page_body" where
  "empty_body = \<lparr>data = [], last_page = None, total_records = None, next_page_url = None\<rparr>"

definition flaky_send :: "nat \<Rightarrow> nat attempt" where
  "flaky_send attempt =
     (if attempt = 0 then Responded \<lparr>status_code = 429, json = empty_body\<rparr>
      else if attempt = 1 then Timeout
      else Responded \<lparr>status_code = 200, json = empty_body\<rparr>)"

definition timeout_send :: "nat \<Rightarrow> nat attempt" where
  "timeout_send attempt = Timeout"

subsection \<open>Example rows\<close>

definition example_rows :: "row list" where
  "example_rows =
     [\<lparr>ID_Subskrypcji_Klienta = IdNumber 11, Data_wygasniecia = DateMissing,
        Data_anulowania = DateMissing, Typ_pakietu = Some roczny, ID_Suba_STRIPE = Some ''sub_1''\<rparr>,
      \<lparr>ID_Subskrypcji_Klienta = IdNumber 12, Data_wygasniecia = DateStamp (2025, 7, 1, 0),
        Data_anulowania = DateMissing, Typ_pakietu = Some miesieczny, ID_Suba_STRIPE = None\<rparr>,
      \<lparr>ID_Subskrypcji_Klienta = IdNumber 13, Data_wygasniecia = DateStamp (2025, 7, 1, 0),
        Data_anulowania = DateStamp (2025, 6, 2, 0), Typ_pakietu = None, ID_Suba_STRIPE = None\<rparr>]"

definition future_row :: row where
  "future_row =
     \<lparr>ID_Subskrypcji_Klienta = IdNumber 14, Data_wygasniecia = DateText ''2030-01-05'',
      Data_anulowania = DateMissing, Typ_pakietu = Some roczny, ID_Suba_STRIPE = Some ''sub_4''\<rparr>"

definition anonymous_row :: row where
  "anonymous_row =
     \<lparr>ID_Subskrypcji_Klienta = IdText [], Data_wygasniecia = DateStamp (2030, 1, 5, 0),
      Data_anulowania = DateMissing, Typ_pakietu = None, ID_Suba_STRIPE = None\<rparr>"

definition unparsable_row :: row where
  "unparsable_row =
     \<lparr>ID_Subskrypcji_Klienta = IdNumber 15, Data_wygasniecia = DateText ''30.06.2025'',
      Data_anulowania = DateMissing, Typ_pakietu = None, ID_Suba_STRIPE = None\<rparr>"

section \<open>Cancellation dates\<close>

lemma update_cancellation_dates_length:
  "length (fst (update_cancellation_dates df)) = length df"
  by (simp add: update_cancellation_dates_def)

text \<open>
  C3. After \<open>update_cancellation_dates\<close>, row by row: a missing cancellation date stays
  missing when the expiration date is missing too; a missing cancellation date becomes
  the expiration date \<open>D\<close> when that is present; a cancellation date that is present is
  never overwritten. The table keeps its length and every expiration date.
\<close>

theorem cancellation_date_reconciled:
  assumes "i < length df"
  shows "length (fst (update_cancellation_dates df)) = length df \<and>
         Data_wygasniecia (fst (update_cancellation_dates df) ! i) = Data_wygasniecia (df ! i) \<and>
         (isna_date (Data_anulowania (df ! i)) \<and> isna_date (Data_wygasniecia (df ! i)) \<longrightarrow>
            isna_date (Data_anulowania (fst (update_cancellation_dates df) ! i))) \<and>
         (isna_date (Data_anulowania (df ! i)) \<and> Data_wygasniecia (df ! i) = DateStamp D \<longrightarrow>
            Data_anulowania (fst (update_cancellation_dates df) ! i) = DateStamp D) \<and>
         (isna_date (Data_anulowania (df ! i)) \<and> \<not> isna_date (Data_wygasniecia (df ! i)) \<longrightarrow>
            Data_anulowania (fst (update_cancellation_dates df) ! i) = Data_wygasniecia (df ! i)) \<and>
         (\<not> isna_date (Data_anulowania (df ! i)) \<longrightarrow>
            Data_anulowania (fst (update_cancellation_dates df) ! i) = Data_anulowania (df ! i))"
  using assms by (simp add: update_cancellation_dates_def mask_def isna_date_def)

theorem cancellation_date_reconciled_witness:
  "Data_anulowania (fst (update_cancellation_dates example_rows) ! 0) = DateMissing \<and>
   Data_anulowania (fst (update_cancellation_dates example_rows) ! 1) = DateStamp (2025, 7, 1, 0) \<and>
   Data_anulowania (fst (update_cancellation_dates example_rows) ! 2) = DateStamp (2025, 6, 2, 0) \<and>
   length (fst (update_cancellation_dates example_rows)) = 3"
proof -
  have r0: "Data_anulowania (fst (update_cancellation_dates example_rows) ! 0) = DateMissing"
    using cancellation_date_reconciled [of 0 example_rows]
    by (simp add: example_rows_def isna_date_def)
  have r1: "Data_anulowania (fst (update_cancellation_dates example_rows) ! 1)
              = DateStamp (2025, 7, 1, 0)"
    using cancellation_date_reconciled [of 1 example_rows "(2025, 7, 1, 0)"]
    by (simp add: example_rows_def isna_date_def)
  have r2: "Data_anulowania (fst (update_cancellation_dates example_rows) ! 2)
              = DateStamp (2025, 6, 2, 0)"
    using cancellation_date_reconciled [of 2 example_rows]
    by (simp add: example_rows_def isna_date_def)
  have len: "length (fst (update_cancellation_dates example_rows)) = 3"
    using cancellation_date_reconciled [of 0 example_rows]
    by (simp add: example_rows_def)
  from r0 r1 r2 len show ?thesis by simp
qed

section \<open>Lifecycle state\<close>

lemma convert_expiration_Some:
  assumes "effective_expiration strptime r = Some e"
  shows "convert_expiration strptime (Data_wygasniecia r)
           (isna_date (Data_wygasniecia r) \<or> Data_wygasniecia r = DateText []) = (DateStamp e, False)"
  using assms
  by (cases "Data_wygasniecia r")
     (simp_all add: effective_expiration_def convert_expiration_def isna_date_def
        del: split_paired_All split_paired_Ex split: option.splits if_splits)

lemma convert_expiration_None:
  assumes "effective_expiration strptime r = None"
  shows "snd (convert_expiration strptime (Data_wygasniecia r)
           (isna_date (Data_wygasniecia r) \<or> Data_wygasniecia r = DateText []))"
  using assms
  by (cases "Data_wygasniecia r")
     (simp_all add: effective_expiration_def convert_expiration_def isna_date_def
        del: split_paired_All split_paired_Ex split: option.splits if_splits)

lemma status3_no_identity:
  "\<not> has_identity r \<Longrightarrow> calculate_status3 strptime now r = Inr Nieokreslony"
  by (simp add: calculate_status3_def has_identity_def isna_ident_def)

lemma status3_blank:
  assumes "has_identity r" "effective_expiration strptime r = None"
  shows "calculate_status3 strptime now r = Inr ''Aktywna''"
  using assms(1) convert_expiration_None [OF assms(2)]
  by (simp add: calculate_status3_def has_identity_def isna_ident_def and_then_def or_else_def)

lemma status3_future:
  assumes "has_identity r" "effective_expiration strptime r = Some e" "now < e"
  shows "calculate_status3 strptime now r = Inr ''Anulowana (aktywna)''"
  using assms(1,3) convert_expiration_Some [OF assms(2)]
  by (simp add: calculate_status3_def has_identity_def isna_ident_def and_then_def gt_datetime_def)

lemma status3_past:
  assumes "has_identity r" "effective_expiration strptime r = Some e" "e \<le> now"
  shows "calculate_status3 strptime now r = Inr ''Anulowana''"
proof -
  from assms(3) have "\<not> now < e" by simp
  with assms(1,3) convert_expiration_Some [OF assms(2)] show ?thesis
    by (simp add: calculate_status3_def has_identity_def isna_ident_def and_then_def or_else_def
          gt_datetime_def le_datetime_def)
qed

lemma status3_refines:
  "calculate_status3 strptime now r =
     Inr (lifecycle_state (has_identity r) (effective_expiration strptime r) now)"
proof (cases "has_identity r")
  case False
  then show ?thesis by (simp add: status3_no_identity lifecycle_state_def)
next
  case True
  show ?thesis
  proof (cases "effective_expiration strptime r")
    case None
    with True show ?thesis by (simp add: status3_blank lifecycle_state_def)
  next
    case (Some e)
    show ?thesis
    proof (cases "now < e")
      case True
      with \<open>has_identity r\<close> Some show ?thesis
        by (simp add: status3_future lifecycle_state_def in_future_def)
    next
      case False
      then have "e \<le> now" by simp
      with \<open>has_identity r\<close> Some False show ?thesis
        by (simp add: status3_past lifecycle_state_def in_future_def)
    qed
  qed
qed

lemma status3_depends_on_two_cells:
  assumes "ID_Subskrypcji_Klienta r' = ID_Subskrypcji_Klienta r"
    and "Data_wygasniecia r' = Data_wygasniecia r"
  shows "calculate_status3 strptime now r' = calculate_status3 strptime now r"
  using assms by (simp add: calculate_status3_def)

lemma status3_active_iff:
  "calculate_status3 strptime now r = Inr ''Aktywna'' \<longleftrightarrow>
     has_identity r \<and> effective_expiration strptime r = None"
proof (cases "has_identity r")
  case False
  then show ?thesis by (simp add: status3_no_identity Nieokreslony_def)
next
  case True
  show ?thesis
  proof (cases "effective_expiration strptime r")
    case None
    with True show ?thesis by (simp add: status3_blank)
  next
    case (Some e)
    show ?thesis
    proof (cases "now < e")
      case True
      with \<open>has_identity r\<close> Some show ?thesis by (simp add: status3_future)
    next
      case False
      then have "e \<le> now" by simp
      with \<open>has_identity r\<close> Some show ?thesis by (simp add: status3_past)
    qed
  qed
qed

text \<open>
  C2. \<open>calculate_status3\<close> is the first-match-wins classification of the specification:
  no identity gives \<open>Nieokreslony\<close>; identity with an expiration strictly in the future
  gives \<open>Anulowana (aktywna)\<close>; identity with no expiration (or one in the future, a case
  the earlier branch has already taken) gives \<open>Aktywna\<close>; an expiration not in the
  future gives \<open>Anulowana\<close>. A row whose expiration is in the future is therefore never
  \<open>Aktywna\<close>: \<open>Aktywna\<close> is returned exactly for an identity with no expiration. The
  function takes no invoice table and reads only the identity and expiration cells of
  the row. It raises nothing: the result is always a label.
\<close>

theorem calculate_status3_first_match:
  "calculate_status3 strptime now r =
     Inr (lifecycle_state (has_identity r) (effective_expiration strptime r) now) \<and>
   (has_identity r \<and> in_future (effective_expiration strptime r) now \<longrightarrow>
      calculate_status3 strptime now r = Inr ''Anulowana (aktywna)'') \<and>
   (calculate_status3 strptime now r = Inr ''Aktywna'' \<longleftrightarrow>
      has_identity r \<and> effective_expiration strptime r = None) \<and>
   (ID_Subskrypcji_Klienta r' = ID_Subskrypcji_Klienta r \<and>
    Data_wygasniecia r' = Data_wygasniecia r \<longrightarrow>
      calculate_status3 strptime now r' = calculate_status3 strptime now r)"
proof -
  have future: "calculate_status3 strptime now r = Inr ''Anulowana (aktywna)''"
    if "has_identity r" "in_future (effective_expiration strptime r) now"
    using that by (auto simp: in_future_def status3_future split: option.splits)
  show ?thesis
    using status3_refines [of strptime now r] status3_active_iff [of strptime now r]
      status3_depends_on_two_cells [of r' r strptime now] future
    by blast
qed

theorem calculate_status3_first_match_witness:
  "calculate_status3 strptime_padded (2026, 11, 3, 0) (example_rows ! 0) = Inr ''Aktywna'' \<and>
   calculate_status3 strptime_padded (2026, 11, 3, 0) (example_rows ! 1) = Inr ''Anulowana'' \<and>
   calculate_status3 strptime_padded (2026, 11, 3, 0) future_row = Inr ''Anulowana (aktywna)'' \<and>
   calculate_status3 strptime_padded (2026, 11, 3, 0) anonymous_row = Inr Nieokreslony"
proof -
  have a: "calculate_status3 strptime_padded (2026, 11, 3, 0) (example_rows ! 0) = Inr ''Aktywna''"
    using calculate_status3_first_match [of strptime_padded "(2026, 11, 3, 0)" "example_rows ! 0" future_row]
    by (simp add: example_rows_def has_identity_def effective_expiration_def lifecycle_state_def)
  have b: "calculate_status3 strptime_padded (2026, 11, 3, 0) (example_rows ! 1) = Inr ''Anulowana''"
    using calculate_status3_first_match [of strptime_padded "(2026, 11, 3, 0)" "example_rows ! 1" future_row]
    by (simp add: example_rows_def has_identity_def effective_expiration_def lifecycle_state_def
          in_future_def)
  have c: "calculate_status3 strptime_padded (2026, 11, 3, 0) future_row = Inr ''Anulowana (aktywna)''"
    using calculate_status3_first_match [of strptime_padded "(2026, 11, 3, 0)" future_row future_row]
    by (simp add: future_row_def has_identity_def effective_expiration_def in_future_def
          lifecycle_state_def strptime_padded_def parse_padded_date_def fmt_date_def fmt_datetime_def dt_def
          days_in_month_def)
  have d: "calculate_status3 strptime_padded (2026, 11, 3, 0) anonymous_row = Inr Nieokreslony"
    using calculate_status3_first_match [of strptime_padded "(2026, 11, 3, 0)" anonymous_row future_row]
    by (simp add: anonymous_row_def has_identity_def lifecycle_state_def)
  from a b c d show ?thesis by simp
qed

text \<open>
  C10. An expiration text that parses under neither \<open>%Y-%m-%d %H:%M:%S\<close> nor
  \<open>%Y-%m-%d\<close> is treated exactly as a blank expiration date: with a
  customer-subscription identity the row is \<open>Aktywna\<close>, the result of the same row with
  the expiration cell missing, and neither \<open>Nieokreslony\<close> nor \<open>Anulowana\<close>.
\<close>

theorem unparsable_expiration_is_blank:
  assumes "has_identity r"
    and "Data_wygasniecia r = DateText s"
    and "strptime s fmt_datetime = None"
    and "strptime s fmt_date = None"
  shows "calculate_status3 strptime now r = Inr ''Aktywna'' \<and>
         calculate_status3 strptime now r =
           calculate_status3 strptime now (r\<lparr>Data_wygasniecia := DateMissing\<rparr>) \<and>
         calculate_status3 strptime now r \<noteq> Inr Nieokreslony \<and>
         calculate_status3 strptime now r \<noteq> Inr ''Anulowana''"
proof -
  from assms(2-4) have none: "effective_expiration strptime r = None"
    by (simp add: effective_expiration_def)
  have active: "calculate_status3 strptime now r = Inr ''Aktywna''"
    by (rule status3_blank [OF assms(1) none])
  have "has_identity (r\<lparr>Data_wygasniecia := DateMissing\<rparr>)"
    using assms(1) by (simp add: has_identity_def)
  moreover have "effective_expiration strptime (r\<lparr>Data_wygasniecia := DateMissing\<rparr>) = None"
    by (simp add: effective_expiration_def)
  ultimately have
    "calculate_status3 strptime now (r\<lparr>Data_wygasniecia := DateMissing\<rparr>) = Inr ''Aktywna''"
    by (rule status3_blank)
  with active show ?thesis by (simp add: Nieokreslony_def)
qed

theorem unparsable_expiration_is_blank_witness:
  "calculate_status3 strptime_padded (2026, 11, 3, 0) unparsable_row = Inr ''Aktywna'' \<and>
   strptime_padded ''30.06.2025'' fmt_datetime = None \<and>
   strptime_padded ''30.06.2025'' fmt_date = None"
proof -
  have p1: "strptime_padded ''30.06.2025'' fmt_datetime = None"
    by (simp add: strptime_padded_def fmt_date_def fmt_datetime_def)
  have p2: "strptime_padded ''30.06.2025'' fmt_date = None"
    by (simp add: strptime_padded_def parse_padded_date_def fmt_date_def)
  have p3: "has_identity unparsable_row"
    and p4: "Data_wygasniecia unparsable_row = DateText ''30.06.2025''"
    by (simp_all add: unparsable_row_def has_identity_def)
  from unparsable_expiration_is_blank
         [where strptime = strptime_padded and r = unparsable_row and s = "''30.06.2025''"
            and now = "(2026, 11, 3, 0)"] p1 p2 p3 p4
  show ?thesis by simp
qed

section \<open>Retry policy\<close>

lemma failed_attempts_stop:
  "failed_attempts send m m = 0"
  by (simp add: failed_attempts_def)

lemma failed_attempts_step:
  assumes "a < m"
  shows "failed_attempts send m a =
           (if retryable (send a) then Suc (failed_attempts send m (Suc a)) else 0)"
  using assms by (simp add: failed_attempts_def upt_conv_Cons)

lemma failed_attempts_le: "a \<le> m \<Longrightarrow> a + failed_attempts send m a \<le> m"
proof -
  have "length (takeWhile (\<lambda>b. retryable (send b)) [a..<m]) \<le> length [a..<m]"
    by (rule length_takeWhile_le)
  moreover assume "a \<le> m"
  ultimately show ?thesis by (simp add: failed_attempts_def)
qed

lemma retry_loop_step:
  assumes "a < m" "retryable (send a)"
  shows "retry_loop send m d a slept = retry_loop send m d (Suc a) (slept @ backoff m d a (send a))"
  using assms
  by (subst retry_loop.simps, cases "send a")
     (auto simp: retryable_def backoff_def)

lemma retry_loop_final:
  assumes "a < m" "\<not> retryable (send a)"
  shows "retry_loop send m d a slept = (response_of (send a), slept)"
  using assms
  by (subst retry_loop.simps, cases "send a")
     (simp_all add: retryable_def response_of_def)

lemma retry_loop_closed_form:
  assumes "a \<le> m"
  shows "retry_loop send m d a slept =
           (if a + failed_attempts send m a < m
            then response_of (send (a + failed_attempts send m a)) else None,
            slept @ concat (map (\<lambda>b. backoff m d b (send b)) [a..<a + failed_attempts send m a]))"
  using assms
proof (induction "m - a" arbitrary: a slept)
  case 0
  then have "a = m" by simp
  then show ?case by (simp add: failed_attempts_stop retry_loop.simps [of send m d m])
next
  case (Suc n)
  then have lt: "a < m" and n: "n = m - Suc a" and le: "Suc a \<le> m" by simp_all
  show ?case
  proof (cases "retryable (send a)")
    case False
    with lt show ?thesis
      by (simp add: retry_loop_final failed_attempts_step)
  next
    case True
    have k: "a + failed_attempts send m a = Suc a + failed_attempts send m (Suc a)"
      using lt True by (simp add: failed_attempts_step)
    have upt: "[a..<Suc a + failed_attempts send m (Suc a)] =
                 a # [Suc a..<Suc a + failed_attempts send m (Suc a)]"
      by (simp add: upt_conv_Cons)
    show ?thesis
      unfolding k upt using Suc.hyps(1) [OF n le, of "slept @ backoff m d a (send a)"] lt True
      by (simp add: retry_loop_step)
  qed
qed


lemma retry_loop_appends:
  assumes "a \<le> m"
  shows "\<exists>rest. snd (retry_loop send m d a slept) = slept @ rest"
  by (simp add: retry_loop_closed_form [OF assms])

lemma backoff_before_last:
  "b < m - 1 \<Longrightarrow> length (backoff m d b x) = 1"
  by (cases x) (simp_all add: backoff_def)

lemma retry_loop_reach:
  assumes "a \<le> m" "\<forall>b<a. retryable (send b)"
  shows "retry_loop send m d 0 [] =
           retry_loop send m d a (concat (map (\<lambda>b. backoff m d b (send b)) [0..<a]))"
  using assms
proof (induction a)
  case 0
  show ?case by simp
next
  case (Suc a)
  then have "retry_loop send m d 0 [] =
               retry_loop send m d a (concat (map (\<lambda>b. backoff m d b (send b)) [0..<a]))"
    by simp
  also have "\<dots> = retry_loop send m d (Suc a)
                      (concat (map (\<lambda>b. backoff m d b (send b)) [0..<a]) @ backoff m d a (send a))"
    using Suc.prems by (intro retry_loop_step) simp_all
  finally show ?case by simp
qed

lemma length_concat_backoff:
  assumes "a \<le> m - 1"
  shows "length (concat (map (\<lambda>b. backoff m d b (send b)) [0..<a])) = a"
  using assms
proof (induction a)
  case 0
  show ?case by simp
next
  case (Suc a)
  then show ?case by (simp add: backoff_before_last)
qed

text \<open>What the run looks like once attempt \<open>a\<close> is reached.\<close>

lemma retry_at_attempt:
  assumes "a < 3" "\<forall>b<a. retryable (send b)"
  obtains slept where "length slept = a"
    and "make_api_request_with_retry send 3 delay = retry_loop send 3 delay a slept"
proof
  show "length (concat (map (\<lambda>b. backoff 3 delay b (send b)) [0..<a])) = a"
    using assms(1) by (intro length_concat_backoff) simp
  show "make_api_request_with_retry send 3 delay =
          retry_loop send 3 delay a (concat (map (\<lambda>b. backoff 3 delay b (send b)) [0..<a]))"
    unfolding make_api_request_with_retry_def using assms by (intro retry_loop_reach) simp_all
qed

lemma retry_sleeps_then_goes_on:
  assumes "a < 3" "\<forall>b<a. retryable (send b)" "retryable (send a)"
    and "backoff 3 delay a (send a) = [w]"
  shows "a < length (snd (make_api_request_with_retry send 3 delay)) \<and>
         snd (make_api_request_with_retry send 3 delay) ! a = w"
proof -
  from assms(1,2) obtain slept where len: "length slept = a"
    and run: "make_api_request_with_retry send 3 delay = retry_loop send 3 delay a slept"
    by (rule retry_at_attempt)
  have "retry_loop send 3 delay a slept = retry_loop send 3 delay (Suc a) (slept @ [w])"
    using assms(1,3,4) retry_loop_step [of a 3 send delay slept] by simp
  moreover obtain rest where
    "snd (retry_loop send 3 delay (Suc a) (slept @ [w])) = (slept @ [w]) @ rest"
    using retry_loop_appends [of "Suc a" 3 send delay "slept @ [w]"] assms(1) by auto
  ultimately have "snd (make_api_request_with_retry send 3 delay) = slept @ w # rest"
    using run by simp
  with len show ?thesis by (simp add: nth_append)
qed

lemma retry_last_attempt_fails:
  assumes "\<forall>b<2. retryable (send b)" "retryable (send 2)"
  shows "fst (make_api_request_with_retry send 3 delay) = None"
proof -
  have "\<forall>b<3. retryable (send b)"
    using assms by (auto simp: less_Suc_eq numeral_3_eq_3 numeral_2_eq_2)
  then have "make_api_request_with_retry send 3 delay =
               retry_loop send 3 delay 3 (concat (map (\<lambda>b. backoff 3 delay b (send b)) [0..<3]))"
    unfolding make_api_request_with_retry_def by (intro retry_loop_reach) simp_all
  then show ?thesis by (simp add: retry_loop.simps [of send 3 delay 3])
qed

lemma retry_returns_at_once:
  assumes "a < 3" "\<forall>b<a. retryable (send b)" "\<not> retryable (send a)"
  shows "fst (make_api_request_with_retry send 3 delay) = response_of (send a) \<and>
         length (snd (make_api_request_with_retry send 3 delay)) = a"
proof -
  from assms(1,2) obtain slept where len: "length slept = a"
    and run: "make_api_request_with_retry send 3 delay = retry_loop send 3 delay a slept"
    by (rule retry_at_attempt)
  with assms(1,3) show ?thesis by (simp add: retry_loop_final)
qed

lemma retry_exception_on_last_attempt:
  assumes "\<forall>b<2. retryable (send b)" "send 2 = Timeout \<or> send 2 = RequestException"
  shows "fst (make_api_request_with_retry send 3 delay) = None \<and>
         length (snd (make_api_request_with_retry send 3 delay)) = 2"
proof -
  have "(2::nat) < 3" by simp
  from this assms(1) obtain slept where len: "length slept = 2"
    and run: "make_api_request_with_retry send 3 delay = retry_loop send 3 delay 2 slept"
    by (rule retry_at_attempt)
  have "retry_loop send 3 delay 2 slept = retry_loop send 3 delay 3 slept"
    using assms(2) by (subst retry_loop.simps) auto
  also have "\<dots> = (None, slept)"
    by (simp add: retry_loop.simps [of send 3 delay 3])
  finally show ?thesis using run len by simp
qed

text \<open>
  C6, as the code has it. With the default budget of 3 attempts, at every attempt
  \<open>a < 3\<close> that is reached (every earlier attempt was retryable): a 429 sleeps
  \<open>delay * 2 ^ a\<close>; a status of 500 or more sleeps \<open>delay * (a + 1)\<close>; a timeout or
  another request exception sleeps \<open>delay * (a + 1)\<close> when \<open>a < 2\<close> and does not sleep
  on the last attempt; any other status is returned at once with no further sleep.
  After a retryable attempt \<open>a < 2\<close> the next attempt is made, and after a retryable
  last attempt the function returns \<open>None\<close>.
\<close>

theorem retry_policy:
  assumes "a < 3" and "\<forall>b<a. retryable (send b)"
  shows
    "(send a = Responded r \<and> status_code r = 429 \<longrightarrow>
        a < length (snd (make_api_request_with_retry send 3 delay)) \<and>
        snd (make_api_request_with_retry send 3 delay) ! a = delay * 2 ^ a) \<and>
     (send a = Responded r \<and> status_code r \<ge> 500 \<longrightarrow>
        a < length (snd (make_api_request_with_retry send 3 delay)) \<and>
        snd (make_api_request_with_retry send 3 delay) ! a = delay * (a + 1)) \<and>
     ((send a = Timeout \<or> send a = RequestException) \<and> a < 2 \<longrightarrow>
        a < length (snd (make_api_request_with_retry send 3 delay)) \<and>
        snd (make_api_request_with_retry send 3 delay) ! a = delay * (a + 1)) \<and>
     ((send a = Timeout \<or> send a = RequestException) \<and> a = 2 \<longrightarrow>
        fst (make_api_request_with_retry send 3 delay) = None \<and>
        length (snd (make_api_request_with_retry send 3 delay)) = 2) \<and>
     (send a = Responded r \<and> status_code r \<noteq> 429 \<and> status_code r < 500 \<longrightarrow>
        fst (make_api_request_with_retry send 3 delay) = Some r \<and>
        length (snd (make_api_request_with_retry send 3 delay)) = a) \<and>
     (retryable (send a) \<and> a = 2 \<longrightarrow>
        fst (make_api_request_with_retry send 3 delay) = None) \<and>
     (retryable (send a) \<and> a < 2 \<and> \<not> retryable (send (a + 1)) \<longrightarrow>
        fst (make_api_request_with_retry send 3 delay) = response_of (send (a + 1)))"
proof (intro conjI impI)
  assume h: "send a = Responded r \<and> status_code r = 429"
  then have "retryable (send a)" "backoff 3 delay a (send a) = [delay * 2 ^ a]"
    by (simp_all add: retryable_def backoff_def)
  from retry_sleeps_then_goes_on [OF assms this]
  show "a < length (snd (make_api_request_with_retry send 3 delay))"
    and "snd (make_api_request_with_retry send 3 delay) ! a = delay * 2 ^ a"
    by simp_all
next
  assume h: "send a = Responded r \<and> status_code r \<ge> 500"
  then have "retryable (send a)" "backoff 3 delay a (send a) = [delay * (a + 1)]"
    by (simp_all add: retryable_def backoff_def)
  from retry_sleeps_then_goes_on [OF assms this]
  show "a < length (snd (make_api_request_with_retry send 3 delay))"
    and "snd (make_api_request_with_retry send 3 delay) ! a = delay * (a + 1)"
    by simp_all
next
  assume h: "(send a = Timeout \<or> send a = RequestException) \<and> a < 2"
  then have "retryable (send a)" "backoff 3 delay a (send a) = [delay * (a + 1)]"
    by (auto simp: retryable_def backoff_def)
  from retry_sleeps_then_goes_on [OF assms this]
  show "a < length (snd (make_api_request_with_retry send 3 delay))"
    and "snd (make_api_request_with_retry send 3 delay) ! a = delay * (a + 1)"
    by simp_all
next
  assume h: "(send a = Timeout \<or> send a = RequestException) \<and> a = 2"
  with assms(2) retry_exception_on_last_attempt [of send delay]
  show "fst (make_api_request_with_retry send 3 delay) = None"
    and "length (snd (make_api_request_with_retry send 3 delay)) = 2"
    by auto
next
  assume h: "send a = Responded r \<and> status_code r \<noteq> 429 \<and> status_code r < 500"
  then have "\<not> retryable (send a)" "response_of (send a) = Some r"
    by (simp_all add: retryable_def response_of_def)
  with retry_returns_at_once [OF assms, of delay]
  show "fst (make_api_request_with_retry send 3 delay) = Some r"
    and "length (snd (make_api_request_with_retry send 3 delay)) = a"
    by simp_all
next
  assume "retryable (send a) \<and> a = 2"
  with assms(2) retry_last_attempt_fails [of send delay]
  show "fst (make_api_request_with_retry send 3 delay) = None" by auto
next
  assume h: "retryable (send a) \<and> a < 2 \<and> \<not> retryable (send (a + 1))"
  with assms(2) have "\<forall>b<a + 1. retryable (send b)"
    by (auto simp: less_Suc_eq)
  moreover from h have "a + 1 < 3" by simp
  ultimately show "fst (make_api_request_with_retry send 3 delay) = response_of (send (a + 1))"
    using h retry_returns_at_once [of "a + 1" send delay] by simp
qed

theorem retry_policy_witness:
  "snd (make_api_request_with_retry flaky_send 3 2) ! 0 = 2 \<and>
   snd (make_api_request_with_retry flaky_send 3 2) ! 1 = 4 \<and>
   fst (make_api_request_with_retry flaky_send 3 2)
     = Some \<lparr>status_code = 200, json = empty_body\<rparr> \<and>
   length (snd (make_api_request_with_retry flaky_send 3 2)) = 2"
proof -
  have r: "retryable (flaky_send 0)" "retryable (flaky_send 1)"
    by (simp_all add: flaky_send_def retryable_def)
  have a0: "snd (make_api_request_with_retry flaky_send 3 2) ! 0 = 2"
    using retry_policy [of 0 flaky_send "\<lparr>status_code = 429, json = empty_body\<rparr>" 2]
    by (simp add: flaky_send_def)
  have a1: "snd (make_api_request_with_retry flaky_send 3 2) ! 1 = 4"
    using retry_policy [of 1 flaky_send "\<lparr>status_code = 429, json = empty_body\<rparr>" 2] r
    by (simp add: flaky_send_def)
  have a2: "fst (make_api_request_with_retry flaky_send 3 2)
              = Some \<lparr>status_code = 200, json = empty_body\<rparr> \<and>
            length (snd (make_api_request_with_retry flaky_send 3 2)) = 2"
    using retry_policy [of 2 flaky_send "\<lparr>status_code = 200, json = empty_body\<rparr>" 2] r
    by (simp add: flaky_send_def less_Suc_eq numeral_2_eq_2)
  from a0 a1 a2 show ?thesis by simp
qed

theorem retry_policy_counterexample:
  "make_api_request_with_retry timeout_send 3 2 = (None, [2, 4]) \<and>
   concat (map (\<lambda>a. claimed_backoff 2 a (timeout_send a)) [0..<3]) = [2, 4, 6]"
  by (simp add: make_api_request_with_retry_def retry_loop.simps timeout_send_def
        claimed_backoff_def upt_conv_Cons numeral_3_eq_3)

section \<open>Column letters and range addresses\<close>

lemma column_letter_loop_nonpos:
  "c \<le> 0 \<Longrightarrow> column_letter_loop c result = result"
  by (subst column_letter_loop.simps) simp

lemma column_letter_loop_pos:
  "0 < c \<Longrightarrow> column_letter_loop c result =
     column_letter_loop ((c - 1) div 26) (char_of ((c - 1) mod 26 + 65) # result)"
  by (subst column_letter_loop.simps) (simp add: Let_def)

lemma column_letter_loop_acc:
  "column_letter_loop c result = column_letter_loop c [] @ result"
proof (induction "nat c" arbitrary: c result rule: less_induct)
  case less
  show ?case
  proof (cases "0 < c")
    case False
    then show ?thesis by (simp add: column_letter_loop_nonpos)
  next
    case True
    then have lt: "nat ((c - 1) div 26) < nat c" by simp
    have "column_letter_loop c result =
            column_letter_loop ((c - 1) div 26) [] @ char_of ((c - 1) mod 26 + 65) # result"
      using less [OF lt, of "char_of ((c - 1) mod 26 + 65) # result"] True
      by (simp add: column_letter_loop_pos)
    moreover have "column_letter_loop c [] =
            column_letter_loop ((c - 1) div 26) [] @ [char_of ((c - 1) mod 26 + 65)]"
      using less [OF lt, of "[char_of ((c - 1) mod 26 + 65)]"] True
      by (simp add: column_letter_loop_pos)
    ultimately show ?thesis by simp
  qed
qed

lemma get_column_letter_nonpos: "c \<le> 0 \<Longrightarrow> get_column_letter c = []"
  by (simp add: get_column_letter_def column_letter_loop_nonpos)

lemma get_column_letter_pos:
  assumes "0 < c"
  shows "get_column_letter c =
           get_column_letter ((c - 1) div 26) @ [char_of ((c - 1) mod 26 + 65)]"
  unfolding get_column_letter_def
  using assms column_letter_loop_acc [of "(c - 1) div 26" "[char_of ((c - 1) mod 26 + 65)]"]
  by (simp add: column_letter_loop_pos)

lemma column_number_snoc:
  "column_number (s @ [ch]) = column_number s * 26 + letter_value ch"
  by (simp add: column_number_def)

lemma letter_value_char_of:
  assumes "0 \<le> x" "x < 26"
  shows "letter_value (char_of (x + 65)) = x + 1"
proof -
  have "(x + 65) mod 256 = x + 65" using assms by simp
  then show ?thesis by (simp add: letter_value_def)
qed

lemma is_upper_char_of:
  assumes "0 \<le> (x::int)" "x < 26"
  shows "is_upper (char_of (x + 65))"
proof -
  have "(x + 65) mod 256 = x + 65" using assms by simp
  then show ?thesis using assms by (simp add: is_upper_def)
qed

lemma column_number_get_column_letter:
  "0 \<le> c \<Longrightarrow> column_number (get_column_letter c) = c"
proof (induction "nat c" arbitrary: c rule: less_induct)
  case less
  show ?case
  proof (cases "0 < c")
    case False
    with less.prems have "c = 0" by simp
    then show ?thesis by (simp add: get_column_letter_nonpos column_number_def)
  next
    case True
    then have lt: "nat ((c - 1) div 26) < nat c" and nn: "0 \<le> (c - 1) div 26" by simp_all
    have "column_number (get_column_letter c) =
            column_number (get_column_letter ((c - 1) div 26)) * 26
              + letter_value (char_of ((c - 1) mod 26 + 65))"
      by (simp add: get_column_letter_pos [OF True] column_number_snoc)
    also have "\<dots> = (c - 1) div 26 * 26 + ((c - 1) mod 26 + 1)"
      using less.hyps [OF lt nn] by (simp add: letter_value_char_of)
    also have "\<dots> = c" by simp
    finally show ?thesis .
  qed
qed

lemma get_column_letter_upper: "list_all is_upper (get_column_letter c)"
proof (induction "nat c" arbitrary: c rule: less_induct)
  case less
  show ?case
  proof (cases "0 < c")
    case False
    then show ?thesis by (simp add: get_column_letter_nonpos)
  next
    case True
    then have lt: "nat ((c - 1) div 26) < nat c" by simp
    show ?thesis
      using less.hyps [OF lt] by (simp add: get_column_letter_pos [OF True] is_upper_char_of)
  qed
qed

lemma get_column_letter_nonempty: "0 < c \<Longrightarrow> get_column_letter c \<noteq> []"
  by (simp add: get_column_letter_pos)

lemma letter_value_range: "is_upper ch \<Longrightarrow> 1 \<le> letter_value ch \<and> letter_value ch \<le> 26"
  by (simp add: is_upper_def letter_value_def)

lemma column_number_nonneg: "list_all is_upper s \<Longrightarrow> 0 \<le> column_number s"
proof (induction s rule: rev_induct)
  case Nil
  show ?case by (simp add: column_number_def)
next
  case (snoc ch s)
  then have "0 \<le> column_number s" "1 \<le> letter_value ch"
    by (simp_all add: letter_value_range)
  then show ?case by (simp add: column_number_snoc)
qed

lemma base26_div:
  fixes v d :: int
  assumes "1 \<le> d" "d \<le> 26"
  shows "(v * 26 + d - 1) div 26 = v"
proof -
  have "v * 26 + d - 1 = (d - 1) + v * 26" by simp
  moreover have "((d - 1) + v * 26) div 26 = v + (d - 1) div 26"
    by (rule div_mult_self1) simp
  moreover have "(d - 1) div 26 = 0" using assms by simp
  ultimately show ?thesis by simp
qed

lemma base26_mod:
  fixes v d :: int
  assumes "1 \<le> d" "d \<le> 26"
  shows "(v * 26 + d - 1) mod 26 = d - 1"
proof -
  have "v * 26 + d - 1 = (d - 1) + v * 26" by simp
  moreover have "((d - 1) + v * 26) mod 26 = (d - 1) mod 26"
    by (rule mod_mult_self1)
  moreover have "(d - 1) mod 26 = d - 1" using assms by simp
  ultimately show ?thesis by (simp only:)
qed

lemma get_column_letter_column_number:
  "list_all is_upper s \<Longrightarrow> get_column_letter (column_number s) = s"
proof (induction s rule: rev_induct)
  case Nil
  show ?case by (simp add: column_number_def get_column_letter_nonpos)
next
  case (snoc ch s)
  then have up: "list_all is_upper s" and ch: "is_upper ch" by simp_all
  let ?v = "column_number s" and ?d = "letter_value ch"
  from up have v: "0 \<le> ?v" by (rule column_number_nonneg)
  from ch have d: "1 \<le> ?d" "?d \<le> 26" by (simp_all add: letter_value_range)
  have pos: "0 < ?v * 26 + ?d" using v d by simp
  have q: "(?v * 26 + ?d - 1) div 26 = ?v" using d by (rule base26_div)
  have m: "(?v * 26 + ?d - 1) mod 26 = ?d - 1" using d by (rule base26_mod)
  have c: "char_of (64 + ?d) = ch" by (simp add: letter_value_def)
  show ?case
    using snoc.IH [OF up]
    by (simp add: column_number_snoc get_column_letter_pos [OF pos] q m c)
qed

lemma column_letter_values:
  "get_column_letter 1 = ''A''" "get_column_letter 3 = ''C''" "get_column_letter 26 = ''Z''"
  "get_column_letter 27 = ''AA''" "get_column_letter 28 = ''AB''"
  by (simp_all add: get_column_letter_def column_letter_loop.simps char_of_def)


lemma sheet_clear_range_values:
  "sheet_clear_range Subskrypcje_klientow = Inr ''C2:U15000''"
  "ws \<noteq> Subskrypcje_klientow \<Longrightarrow> sheet_clear_range ws = Inr ''2:15000''"
  by (simp_all add: sheet_clear_range_def clear_range_def)

text \<open>
  C8, as the code has it. The clear address has the fixed rows 2 to 15000 (columns C to
  U on the subscriptions sheet, whole rows elsewhere) and does not depend on the table.
  For a table of \<open>n \<ge> 1\<close> records and \<open>k\<close> fields the write address runs from row 2 to
  row \<open>n + 1\<close>: on the subscriptions sheet from column 3 to column \<open>3 + k - 1\<close>, on
  another sheet with the default start column \<open>A\<close> from column 1 to column
  \<open>1 + k - 1\<close>. An empty table is not written. \<open>get_column_letter\<close> is the bijective
  base-26 numbering: \<open>column_number\<close> inverts it on every positive index, every name of
  capital letters is the name of its number, and 1, 26, 27, 28 are A, Z, AA, AB.
\<close>

theorem sheet_ranges:
  "sheet_clear_range Subskrypcje_klientow = Inr ''C2:U15000'' \<and>
   (ws \<noteq> Subskrypcje_klientow \<longrightarrow> sheet_clear_range ws = Inr ''2:15000'') \<and>
   (0 < n \<longrightarrow>
      range_address Subskrypcje_klientow n k start_column =
        Some (get_column_letter 3 @ ''2:'' @ get_column_letter (3 + int k - 1)
                @ str_int (int n + 1))) \<and>
   (0 < n \<and> ws \<noteq> Subskrypcje_klientow \<longrightarrow>
      range_address ws n k (get_column_letter 1) =
        Some (get_column_letter 1 @ ''2:'' @ get_column_letter (1 + int k - 1)
                @ str_int (int n + 1))) \<and>
   range_address ws 0 k start_column = None \<and>
   (0 < c \<longrightarrow>
      column_number (get_column_letter c) = c \<and> get_column_letter c \<noteq> [] \<and>
      list_all is_upper (get_column_letter c)) \<and>
   (list_all is_upper name \<longrightarrow> get_column_letter (column_number name) = name) \<and>
   get_column_letter 1 = ''A'' \<and> get_column_letter 26 = ''Z'' \<and>
   get_column_letter 27 = ''AA'' \<and> get_column_letter 28 = ''AB''"
proof -
  have w1: "range_address Subskrypcje_klientow n k start_column =
              Some (get_column_letter 3 @ ''2:'' @ get_column_letter (3 + int k - 1)
                      @ str_int (int n + 1))" if "0 < n"
    using that by (simp add: range_address_def Let_def)
  have w2: "range_address ws n k (get_column_letter 1) =
              Some (get_column_letter 1 @ ''2:'' @ get_column_letter (1 + int k - 1)
                      @ str_int (int n + 1))" if "0 < n" "ws \<noteq> Subskrypcje_klientow"
    using that by (simp add: range_address_def Let_def)
  have w0: "range_address ws 0 k start_column = None"
    by (simp add: range_address_def)
  have col: "column_number (get_column_letter c) = c \<and> get_column_letter c \<noteq> [] \<and>
             list_all is_upper (get_column_letter c)" if "0 < c"
    using that
    by (simp add: column_number_get_column_letter get_column_letter_nonempty
          get_column_letter_upper)
  show ?thesis
    using sheet_clear_range_values(1) sheet_clear_range_values(2) [of ws] w1 w2 w0 col
      get_column_letter_column_number [of name] column_letter_values
    by blast
qed

theorem sheet_ranges_witness:
  "sheet_clear_range ''Arkusz1'' = Inr ''2:15000'' \<and>
   range_address Subskrypcje_klientow 5 19 ''A'' = Some ''C2:U6'' \<and>
   range_address ''Arkusz1'' 5 19 ''A'' = Some ''A2:S6'' \<and>
   column_number (get_column_letter 28) = 28 \<and>
   get_column_letter (column_number ''AB'') = ''AB''"
proof -
  have ws: "''Arkusz1'' \<noteq> Subskrypcje_klientow" by (simp add: Subskrypcje_klientow_def)
  have up: "list_all is_upper ''AB''" by (simp add: is_upper_def)
  have letters: "get_column_letter 1 = ''A''" "get_column_letter 3 = ''C''"
    "get_column_letter 19 = ''S''" "get_column_letter 21 = ''U''"
    by (simp_all add: get_column_letter_def column_letter_loop.simps char_of_def)
  have six: "str_int 6 = ''6''" by (simp add: str_int_def str_nat.simps char_of_def)
  from sheet_ranges [of "''Arkusz1''" 5 19 "''A''" 28 "''AB''"] ws up letters six
  show ?thesis by (simp add: column_number_def letter_value_def)
qed

theorem sheet_ranges_counterexample:
  "range_address ''Arkusz1'' 1 2 ''C'' = Some ''C2:B2'' \<and>
   get_column_letter (3 + 2 - 1) = ''D'' \<and>
   range_address Subskrypcje_klientow 0 19 ''A'' = None"
  by (simp add: range_address_def get_column_letter_def column_letter_loop.simps char_of_def
        str_int_def str_nat.simps Subskrypcje_klientow_def)

section \<open>Invoice status windows\<close>

lemma plan_labels_distinct: "miesieczny \<noteq> roczny"
  by (simp add: miesieczny_def roczny_def)

lemma dt_day_31:
  assumes "dt y m 31 = Inr t"
  shows "m = 1 \<or> m = 3 \<or> m = 5 \<or> m = 7 \<or> m = 8 \<or> m = 10 \<or> m = 12"
proof -
  from assms have "1 \<le> m" "m \<le> 12" "31 \<le> days_in_month y m"
    by (simp_all add: dt_def split: if_splits)
  then have "m \<noteq> 2" "m \<noteq> 4" "m \<noteq> 6" "m \<noteq> 9" "m \<noteq> 11"
    by (auto simp: days_in_month_def split: if_splits)
  with \<open>1 \<le> m\<close> \<open>m \<le> 12\<close> show ?thesis by arith
qed

lemma dt_day_31_ok:
  assumes "m = 1 \<or> m = 3 \<or> m = 5 \<or> m = 7 \<or> m = 8 \<or> m = 10 \<or> m = 12"
    and "1 \<le> y" "y \<le> 9999"
  shows "dt y m 31 = Inr (y, m, 31, 0)"
  using assms by (auto simp: dt_def days_in_month_def)

lemma dt_day_1_ok:
  assumes "1 \<le> m" "m \<le> 12" "1 \<le> y" "y \<le> 9999"
  shows "dt y m 1 = Inr (y, m, 1, 0)"
  using assms by (auto simp: dt_def days_in_month_def)

lemma dt_day_30_ok:
  assumes "1 \<le> m" "m \<le> 12" "m \<noteq> 2" "1 \<le> y" "y \<le> 9999"
  shows "dt y m 30 = Inr (y, m, 30, 0)"
  using assms by (auto simp: dt_def days_in_month_def)

lemma dt_february_30: "dt y 2 30 = Inl ValueError"
  by (simp add: dt_def days_in_month_def)

lemma dt_error: "dt y m d = Inl e \<Longrightarrow> e = ValueError"
  by (simp add: dt_def split: if_splits)

lemma last_2_months_returns:
  assumes "ID_Suba_STRIPE r = Some sid" "sid \<noteq> []"
    and "Typ_pakietu r = Some miesieczny \<or> Typ_pakietu r = Some roczny"
    and "calculate_invoice_status_last_2_months r invoices_df month1 month2 year ys = Inr v"
  shows "\<exists>t. dt year month2 31 = Inr t"
  using assms plan_labels_distinct
  by (auto simp: calculate_invoice_status_last_2_months_def Let_def
        simp del: split_paired_Ex split_paired_All split: sum.splits if_splits)

lemma last_2_months_raises:
  assumes "ID_Suba_STRIPE r = Some sid" "sid \<noteq> []"
    and "Typ_pakietu r = Some miesieczny \<or> Typ_pakietu r = Some roczny"
    and "dt year month2 31 = Inl e"
  shows "calculate_invoice_status_last_2_months r invoices_df month1 month2 year ys = Inl ValueError"
  using assms plan_labels_distinct dt_error
  by (auto simp: calculate_invoice_status_last_2_months_def Let_def
        simp del: split_paired_Ex split_paired_All split: sum.splits)

lemma last_2_months_total:
  assumes "ID_Suba_STRIPE r = Some sid" "sid \<noteq> []"
    and "Typ_pakietu r = Some miesieczny \<or> Typ_pakietu r = Some roczny"
    and "dt year month2 31 = Inr t2" "dt year month1 1 = Inr t1" "dt ys month2 1 = Inr t0"
  shows "calculate_invoice_status_last_2_months r invoices_df month1 month2 year ys = Inr ''paid'' \<or>
         calculate_invoice_status_last_2_months r invoices_df month1 month2 year ys = Inr []"
  using assms plan_labels_distinct
  by (auto simp: calculate_invoice_status_last_2_months_def Let_def
        simp del: split_paired_Ex split_paired_All)


lemma dt_day_31_short:
  assumes "m = 2 \<or> m = 4 \<or> m = 6 \<or> m = 9 \<or> m = 11"
  shows "dt y m 31 = Inl ValueError"
  using assms by (auto simp: dt_def days_in_month_def)

text \<open>
  C9. For a row with a payment-subscription reference and a monthly or yearly plan,
  \<open>calculate_invoice_status_last_2_months\<close> builds \<open>datetime(year, month2, 31)\<close>: with
  \<open>month2\<close> one of 2, 4, 6, 9, 11 it raises \<open>ValueError\<close> instead of returning a status;
  it returns a status only if \<open>month2\<close> is one of 1, 3, 5, 7, 8, 10, 12; and for such a
  \<open>month2\<close>, a \<open>month1\<close> from 1 to 12 and years from 1 to 9999 it does return, \<open>paid\<close>
  or the empty string.
\<close>

theorem last_2_months_needs_31_day_month:
  assumes "ID_Suba_STRIPE r = Some sid" and "sid \<noteq> []"
    and "Typ_pakietu r = Some miesieczny \<or> Typ_pakietu r = Some roczny"
  shows
    "((month2 = 2 \<or> month2 = 4 \<or> month2 = 6 \<or> month2 = 9 \<or> month2 = 11) \<longrightarrow>
        calculate_invoice_status_last_2_months r invoices_df month1 month2 year ys
          = Inl ValueError) \<and>
     ((\<exists>v. calculate_invoice_status_last_2_months r invoices_df month1 month2 year ys = Inr v) \<longrightarrow>
        (month2 = 1 \<or> month2 = 3 \<or> month2 = 5 \<or> month2 = 7 \<or> month2 = 8 \<or> month2 = 10 \<or>
         month2 = 12)) \<and>
     ((month2 = 1 \<or> month2 = 3 \<or> month2 = 5 \<or> month2 = 7 \<or> month2 = 8 \<or> month2 = 10 \<or>
       month2 = 12) \<and> 1 \<le> month1 \<and> month1 \<le> 12 \<and> 1 \<le> year \<and> year \<le> 9999 \<and>
      1 \<le> ys \<and> ys \<le> 9999 \<longrightarrow>
        calculate_invoice_status_last_2_months r invoices_df month1 month2 year ys = Inr ''paid'' \<or>
        calculate_invoice_status_last_2_months r invoices_df month1 month2 year ys = Inr [])"
proof (intro conjI impI)
  assume "month2 = 2 \<or> month2 = 4 \<or> month2 = 6 \<or> month2 = 9 \<or> month2 = 11"
  then have "dt year month2 31 = Inl ValueError" by (rule dt_day_31_short)
  with assms
  show "calculate_invoice_status_last_2_months r invoices_df month1 month2 year ys = Inl ValueError"
    by (rule last_2_months_raises)
next
  assume "\<exists>v. calculate_invoice_status_last_2_months r invoices_df month1 month2 year ys = Inr v"
  then obtain v where
    "calculate_invoice_status_last_2_months r invoices_df month1 month2 year ys = Inr v" ..
  with assms obtain t where "dt year month2 31 = Inr t"
    using last_2_months_returns by blast
  then show "month2 = 1 \<or> month2 = 3 \<or> month2 = 5 \<or> month2 = 7 \<or> month2 = 8 \<or> month2 = 10 \<or>
             month2 = 12"
    by (rule dt_day_31)
next
  assume h: "(month2 = 1 \<or> month2 = 3 \<or> month2 = 5 \<or> month2 = 7 \<or> month2 = 8 \<or> month2 = 10 \<or>
       month2 = 12) \<and> 1 \<le> month1 \<and> month1 \<le> 12 \<and> 1 \<le> year \<and> year \<le> 9999 \<and>
      1 \<le> ys \<and> ys \<le> 9999"
  then have m2: "1 \<le> month2" "month2 \<le> 12" by auto
  from h have "dt year month2 31 = Inr (year, month2, 31, 0)"
    by (intro dt_day_31_ok) simp_all
  moreover from h have "dt year month1 1 = Inr (year, month1, 1, 0)"
    by (intro dt_day_1_ok) simp_all
  moreover from h m2 have "dt ys month2 1 = Inr (ys, month2, 1, 0)"
    by (intro dt_day_1_ok) simp_all
  ultimately
  show "calculate_invoice_status_last_2_months r invoices_df month1 month2 year ys = Inr ''paid'' \<or>
        calculate_invoice_status_last_2_months r invoices_df month1 month2 year ys = Inr []"
    using assms by (intro last_2_months_total)
qed

theorem last_2_months_needs_31_day_month_witness:
  "calculate_invoice_status_last_2_months (example_rows ! 0) example_invoices 5 6 2025 2024
     = Inl ValueError \<and>
   (calculate_invoice_status_last_2_months (example_rows ! 0) example_invoices 6 7 2025 2024
      = Inr ''paid'' \<or>
    calculate_invoice_status_last_2_months (example_rows ! 0) example_invoices 6 7 2025 2024
      = Inr [])"
proof -
  have r: "ID_Suba_STRIPE (example_rows ! 0) = Some ''sub_1''" "''sub_1'' \<noteq> []"
    "Typ_pakietu (example_rows ! 0) = Some miesieczny \<or> Typ_pakietu (example_rows ! 0) = Some roczny"
    by (simp_all add: example_rows_def)
  from last_2_months_needs_31_day_month [OF r, of 6 example_invoices 5 2025 2024]
       last_2_months_needs_31_day_month [OF r, of 7 example_invoices 6 2025 2024]
  show ?thesis by simp
qed

lemma chosen_month_no_reference:
  assumes "ID_Suba_STRIPE r = None \<or> ID_Suba_STRIPE r = Some []"
  shows "calculate_invoice_status_chosen_month r invoices_df m y ys = Inr Nie_mozna_okreslic"
  using assms by (auto simp: calculate_invoice_status_chosen_month_def)

lemma chosen_month_yearly_window:
  assumes "ID_Suba_STRIPE r = Some sid" "sid \<noteq> []" "Typ_pakietu r = Some roczny"
    and "1 \<le> m" "m \<le> 12" "m \<noteq> 2" "1 \<le> y" "y \<le> 9999" "1 \<le> ys" "ys \<le> 9999"
  shows "calculate_invoice_status_chosen_month r invoices_df m y ys =
           Inr (case filter (in_yearly_window sid m y ys) invoices_df of
                  [] \<Rightarrow> []
                | i # rest \<Rightarrow> Status_Faktury i)"
proof -
  have s: "dt ys m 1 = Inr (ys, m, 1, 0)" using assms by (intro dt_day_1_ok)
  have e: "dt y m 30 = Inr (y, m, 30, 0)" using assms by (intro dt_day_30_ok)
  have f: "filter (\<lambda>i. ID_Subskrypcji i = Some sid \<and> (ys, m, 1, 0) \<le> Data_Utworzenia i \<and>
                        Data_Utworzenia i \<le> (y, m, 30, 0)) invoices_df =
             filter (in_yearly_window sid m y ys) invoices_df"
    by (simp add: in_yearly_window_def [abs_def])
  show ?thesis
    using assms(1-3) plan_labels_distinct
    by (simp add: calculate_invoice_status_chosen_month_def Let_def s e f
          del: split_paired_All split_paired_Ex split: list.splits)
qed

lemma day_31_outside_window:
  assumes "Data_Utworzenia i = (y, m, 31, t)"
  shows "\<not> in_yearly_window sid m y ys i"
  using assms by (simp add: in_yearly_window_def)

text \<open>
  C7 at February. The yearly branch builds \<open>datetime(chosen_year, chosen_month, 30)\<close>,
  which does not exist in February: for every yearly row with a payment-subscription
  reference, every invoice table and all years, the chosen month 2 raises \<open>ValueError\<close>
  where the specification has the first match's status or the empty string returned.
\<close>

theorem chosen_month_february_raises:
  assumes "ID_Suba_STRIPE r = Some sid" and "sid \<noteq> []" and "Typ_pakietu r = Some roczny"
  shows "calculate_invoice_status_chosen_month r invoices_df 2 y ys = Inl ValueError"
  using assms plan_labels_distinct dt_february_30 [of y] dt_error [of ys 2 1]
  by (auto simp: calculate_invoice_status_chosen_month_def Let_def
        simp del: split_paired_Ex split_paired_All split: sum.splits)

theorem chosen_month_february_raises_witness:
  "calculate_invoice_status_chosen_month (example_rows ! 0) example_invoices 2 2025 2024
     = Inl ValueError"
proof -
  have "ID_Suba_STRIPE (example_rows ! 0) = Some ''sub_1''" "''sub_1'' \<noteq> []"
    "Typ_pakietu (example_rows ! 0) = Some roczny"
    by (simp_all add: example_rows_def)
  then show ?thesis by (rule chosen_month_february_raises)
qed

lemma chosen_month_yearly_example:
  "calculate_invoice_status_chosen_month (example_rows ! 0) example_invoices 7 2025 2024
     = Inr ''paid''"
proof -
  have "ID_Suba_STRIPE (example_rows ! 0) = Some ''sub_1''" "''sub_1'' \<noteq> []"
    "Typ_pakietu (example_rows ! 0) = Some roczny"
    by (simp_all add: example_rows_def)
  then have "calculate_invoice_status_chosen_month (example_rows ! 0) example_invoices 7 2025 2024 =
           Inr (case filter (in_yearly_window ''sub_1'' 7 2025 2024) example_invoices of
                  [] \<Rightarrow> []
                | i # rest \<Rightarrow> Status_Faktury i)"
    by (rule chosen_month_yearly_window) simp_all
  then show ?thesis by (simp add: example_invoices_def in_yearly_window_def)
qed


section \<open>Tax identifier normalization\<close>













text \<open>The Unicode tables on the ASCII digits.\<close>

lemma decimal_ascii:
  assumes "48 \<le> c" "c \<le> 57"
  shows "decimal c = Some (c - 48)"
  using assms by (simp add: decimal_def decimal_zeros_def)




lemma those_decimal_ascii:
  assumes "list_all (\<lambda>c. 48 \<le> c \<and> c \<le> 57) s"
  shows "those (map decimal s) = Some (map (\<lambda>c. c - 48) s)"
  using assms by (induction s) (simp_all add: decimal_ascii)

















lemma extract_client_nip_too_long:
  assumes "0 < n" "int_max_str_digits < int (length (str_int n))"
  shows "extract_client_nip (crm_task (JInt n)) = []"
  using assms
  by (simp add: extract_client_nip_def crm_task_def Let_def str_int_limited_def str_int_def)









section \<open>Left join and exclusion filter\<close>




















section \<open>Paged fetches\<close>

lemma exhausts_retries_request:
  assumes "exhausts_retries net page"
  shows "request net page = None"
proof -
  have "\<forall>b<3. retryable (net page b)"
    using assms by (simp add: exhausts_retries_def list_all_iff)
  then have eq: "takeWhile (\<lambda>b. retryable (net page b)) [0..<3] = [0..<3]"
    by (simp add: takeWhile_eq_all_conv)
  have "failed_attempts (net page) 3 0 = length [0..<(3::nat)]"
    unfolding failed_attempts_def eq ..
  then have "failed_attempts (net page) 3 0 = 3"
    by simp
  then show ?thesis
    by (simp add: request_def make_api_request_with_retry_def retry_loop_closed_form)
qed

lemma exhausts_retries_no_data: "exhausts_retries net (int p) \<Longrightarrow> no_data net p"
  by (simp add: no_data_def exhausts_retries_request)

lemma loop_test_simps:
  "raised (int_le_json k (JInt n)) = None" "holds (int_le_json k (JInt n)) = (k \<le> n)"
  "raised (int_ge_json k (JInt n)) = None" "holds (int_ge_json k (JInt n)) = (n \<le> k)"
  "raised (and_then b (int_ge_json k (JInt n))) = None"
  "holds (and_then b (int_ge_json k (JInt n))) = (b \<and> n \<le> k)"
  by (simp_all add: raised_def holds_def int_le_json_def int_ge_json_def and_then_def)

lemma fetch_pages_stop:
  assumes "no_data net c"
  shows "fetch_pages net (int c) (JInt tp) acc = Some (Inr acc)"
  using assms
  by (subst fetch_pages.simps) (auto simp: no_data_def loop_test_simps split: option.splits)

lemma fetch_pages_beyond:
  assumes "tp < c"
  shows "fetch_pages net c (JInt tp) acc = Some (Inr acc)"
  using assms by (subst fetch_pages.simps) (simp add: loop_test_simps)

lemma fetch_pages_served:
  assumes "c \<le> k" "k \<le> Suc (length pages)" "1 \<le> c"
    and "list_all (serves net pages) [c..<k]"
    and "list_all (\<lambda>pg. pg \<noteq> []) pages"
    and "k = Suc (length pages) \<or> no_data net k"
  shows "fetch_pages net (int c) (JInt (int (length pages))) acc =
           Some (Inr (acc @ concat (map (\<lambda>p. pages ! (p - 1)) [c..<k])))"
  using assms(1,3,4)
proof (induction "k - c" arbitrary: c acc)
  case 0
  then have "c = k" by simp
  with assms(6) show ?case
    by (auto simp: fetch_pages_stop fetch_pages_beyond)
next
  case (Suc n)
  then have lt: "c < k" and n: "n = k - Suc c" and le: "Suc c \<le> k" by simp_all
  from lt assms(2) have cP: "c \<le> length pages" by simp
  from Suc.prems(3) lt have sv: "serves net pages c"
    and rest: "list_all (serves net pages) [Suc c..<k]"
    by (simp_all add: upt_conv_Cons)
  from sv obtain r where r: "request net (int c) = Some r" "status_code r = 200"
    "data (json r) = pages ! (c - 1)" "last_page (json r) = Some (JInt (int (length pages)))"
    by (auto simp: serves_def split: option.splits)
  from cP Suc.prems(2) assms(5) have ne: "pages ! (c - 1) \<noteq> []"
    by (simp add: list_all_length)
  have ih: "fetch_pages net (int (Suc c)) (JInt (int (length pages))) (acc @ pages ! (c - 1)) =
              Some (Inr ((acc @ pages ! (c - 1)) @ concat (map (\<lambda>p. pages ! (p - 1)) [Suc c..<k])))"
    using Suc.hyps(1) [OF n le _ rest] by simp
  have last: "[Suc c..<k] = []" if "int (length pages) \<le> int c"
    using that cP assms(2) by simp
  have "fetch_pages net (int c) (JInt (int (length pages))) acc =
          Some (Inr (acc @ pages ! (c - 1) @ concat (map (\<lambda>p. pages ! (p - 1)) [Suc c..<k])))"
    using r ne cP ih last
    by (subst fetch_pages.simps) (auto simp: Let_def add.commute loop_test_simps)
  with lt show ?case by (simp add: upt_conv_Cons)
qed

lemma fetch_all_loop_stop:
  assumes "no_data net c"
  shows "fetch_all_loop net (int c) acc = acc"
  using assms
  by (subst fetch_all_loop.simps) (auto simp: no_data_def split: option.splits)

lemma fetch_all_loop_beyond:
  assumes "max_pages < c"
  shows "fetch_all_loop net c acc = acc"
  using assms by (subst fetch_all_loop.simps) simp

lemma fetch_all_loop_served:
  assumes "c \<le> k" "k \<le> Suc (length pages)" "k \<le> 11" "1 \<le> c"
    and "list_all (serves net pages) [c..<k]"
    and "list_all (\<lambda>pg. pg \<noteq> []) pages"
    and "k = 11 \<or> no_data net k"
  shows "fetch_all_loop net (int c) acc = acc @ concat (map (\<lambda>p. pages ! (p - 1)) [c..<k])"
  using assms(1,4,5)
proof (induction "k - c" arbitrary: c acc)
  case 0
  then have "c = k" by simp
  with assms(7) show ?case
    by (auto simp: fetch_all_loop_stop fetch_all_loop_beyond max_pages_def)
next
  case (Suc n)
  then have lt: "c < k" and n: "n = k - Suc c" and le: "Suc c \<le> k" by simp_all
  from lt assms(2) have cP: "c \<le> length pages" by simp
  from lt assms(3) have c10: "int c \<le> max_pages" by (simp add: max_pages_def)
  from Suc.prems(3) lt have sv: "serves net pages c"
    and rest: "list_all (serves net pages) [Suc c..<k]"
    by (simp_all add: upt_conv_Cons)
  from sv obtain r where r: "request net (int c) = Some r" "status_code r = 200"
    "data (json r) = pages ! (c - 1)"
    by (auto simp: serves_def split: option.splits)
  from cP Suc.prems(2) assms(6) have ne: "pages ! (c - 1) \<noteq> []"
    by (simp add: list_all_length)
  have ih: "fetch_all_loop net (int (Suc c)) (acc @ pages ! (c - 1)) =
              (acc @ pages ! (c - 1)) @ concat (map (\<lambda>p. pages ! (p - 1)) [Suc c..<k])"
    using Suc.hyps(1) [OF n le _ rest] by simp
  have "fetch_all_loop net (int c) acc =
          acc @ pages ! (c - 1) @ concat (map (\<lambda>p. pages ! (p - 1)) [Suc c..<k])"
    using r ne c10 ih
    by (subst fetch_all_loop.simps) (simp add: add.commute)
  with lt show ?case by (simp add: upt_conv_Cons)
qed

lemma pages_upto:
  assumes "k \<le> Suc (length pages)"
  shows "map (\<lambda>p. pages ! (p - 1)) [1..<k] = take (k - 1) pages"
  using assms by (intro nth_equalityI) simp_all

lemma truncated_is_shorter:
  assumes "list_all (\<lambda>pg. pg \<noteq> []) pages" "n < length pages"
  shows "length (concat (take n pages)) < length (concat pages)"
proof -
  have "pages = take n pages @ pages ! n # drop (Suc n) pages"
    using assms(2) by (rule id_take_nth_drop)
  then have "concat pages = concat (take n pages) @ pages ! n @ concat (drop (Suc n) pages)"
    by (metis concat.simps(2) concat_append)
  moreover from assms have "pages ! n \<noteq> []" by (simp add: list_all_length)
  ultimately show ?thesis by (simp add: length_greater_0_conv [symmetric] del: length_greater_0_conv)
qed

lemma fetch_calendesk_data_all_stops_at:
  assumes "1 \<le> k" "k \<le> Suc (length pages)" "k \<le> 11"
    and "served_through net pages (k - 1)"
    and "list_all (\<lambda>pg. pg \<noteq> []) pages"
    and "k = 11 \<or> no_data net k"
  shows "fetch_calendesk_data_all net = concat (take (k - 1) pages)"
proof -
  from assms(1,4) have "list_all (serves net pages) [1..<k]"
    by (simp add: served_through_def)
  with assms have "fetch_all_loop net (int 1) [] = [] @ concat (map (\<lambda>p. pages ! (p - 1)) [1..<k])"
    by (intro fetch_all_loop_served) simp_all
  moreover have "concat (map (\<lambda>p. pages ! (p - 1)) [1..<k]) = concat (take (k - 1) pages)"
    by (simp only: pages_upto [OF assms(2)])
  ultimately show ?thesis
    by (simp add: fetch_calendesk_data_all_def)
qed




lemma collect_ids_plain:
  assumes "list_all has_plain_id rs"
  shows "\<exists>ids. collect_ids rs = Inr ids \<and> list_all hashable ids"
  using assms
  by (induction rs) (auto simp: has_plain_id_def split: sum.splits)

lemma post_fetch_checks_plain:
  assumes "list_all has_plain_id rs"
  shows "post_fetch_checks rs (JInt n) = None"
proof (cases rs)
  case Nil
  then show ?thesis by (simp add: post_fetch_checks_def)
next
  case (Cons r rest)
  from collect_ids_plain [OF assms] obtain ids where
    ids: "collect_ids rs = Inr ids" "list_all hashable ids" by blast
  from assms Cons have "has_plain_id r" by simp
  then obtain kvs v where "r = JObj kvs" "map_of kvs ''id'' = Some v"
    by (cases r) (auto simp: has_plain_id_def split: option.splits)
  with Cons ids show ?thesis by (simp add: post_fetch_checks_def)
qed

lemma fetch_calendesk_data_stops_at:
  assumes "pages \<noteq> []" "1 \<le> k" "k \<le> Suc (length pages)"
    and "served_through net pages (k - 1)"
    and "list_all (\<lambda>pg. pg \<noteq> []) pages"
    and "k = Suc (length pages) \<or> exhausts_retries net (int k)"
    and "list_all has_plain_id (concat pages)"
  shows "fetch_calendesk_data net = Some (Inr (concat (take (k - 1) pages)))"
proof (cases "k = 1")
  case True
  with assms(1,6) have "exhausts_retries net 1" by auto
  then have "request net 1 = None" by (rule exhausts_retries_request)
  with True show ?thesis by (simp add: fetch_calendesk_data_def)
next
  case False
  with assms(2) have k2: "2 \<le> k" by simp
  with assms(4) have sv: "serves net pages 1" and rest: "list_all (serves net pages) [2..<k]"
    by (simp_all add: served_through_def upt_conv_Cons Suc_diff_Suc numeral_2_eq_2)
  from sv obtain r where r: "request net 1 = Some r" "status_code r = 200"
    "data (json r) = pages ! 0" "last_page (json r) = Some (JInt (int (length pages)))"
    "total_records (json r) = Some (JInt (int (length (concat pages))))"
    by (auto simp: serves_def split: option.splits)
  from assms(6) have stop: "k = Suc (length pages) \<or> no_data net k"
    by (auto dest: exhausts_retries_no_data)
  have eq: "pages ! 0 @ concat (map (\<lambda>p. pages ! (p - 1)) [2..<k]) = concat (take (k - 1) pages)"
  proof -
    have "[1..<k] = 1 # [2..<k]" using k2 by (simp add: upt_conv_Cons numeral_2_eq_2)
    then have "concat (map (\<lambda>p. pages ! (p - 1)) [1..<k]) =
                 pages ! 0 @ concat (map (\<lambda>p. pages ! (p - 1)) [2..<k])"
      by simp
    moreover have "concat (map (\<lambda>p. pages ! (p - 1)) [1..<k]) = concat (take (k - 1) pages)"
      by (simp only: pages_upto [OF assms(3)])
    ultimately show ?thesis by simp
  qed
  have "set (concat (take (k - 1) pages)) \<subseteq> set (concat pages)"
    using set_take_subset [of "k - 1" pages] by auto
  with assms(7) have "list_all has_plain_id (concat (take (k - 1) pages))"
    by (auto simp: list_all_iff)
  then have checks: "post_fetch_checks (concat (take (k - 1) pages))
                       (JInt (int (length (concat pages)))) = None"
    by (rule post_fetch_checks_plain)
  show ?thesis
  proof (cases "length pages \<le> 1")
    case True
    with k2 assms(3) have "k = 2" by simp
    with True r eq show ?thesis
      by (simp add: fetch_calendesk_data_def json_le_int_def)
  next
    case False
    have "fetch_pages net (int 2) (JInt (int (length pages))) (pages ! 0) =
            Some (Inr (pages ! 0 @ concat (map (\<lambda>p. pages ! (p - 1)) [2..<k])))"
      using k2 assms(3) rest assms(5) stop by (intro fetch_pages_served) simp_all
    with False r eq checks show ?thesis
      by (simp add: fetch_calendesk_data_def json_le_int_def)
  qed
qed


lemma served_through_prefix:
  assumes "served_through net pages n" "k \<le> n"
  shows "served_through net pages k"
proof -
  from assms(2) have "[1..<Suc n] = [1..<Suc k] @ [Suc k..<Suc n]"
    by (metis Suc_le_mono le_add1 plus_1_eq_Suc upt_add_eq_append le_iff_add)
  with assms(1) show ?thesis by (simp add: served_through_def)
qed


text \<open>
  A page whose request exhausts its retries ends both fetches with the pages before it:
  a value, not an exception.
\<close>

lemma fetch_stops_at_exhausted_page:
  "exhausts_retries (failing_net three_pages) 2 \<and>
   fetch_calendesk_data (failing_net three_pages) = Some (Inr [rec 1, rec 2]) \<and>
   fetch_calendesk_data_all (failing_net three_pages) = [rec 1, rec 2]"
  by code_simp

text \<open>
  What the validation after the loop of \<open>fetch_calendesk_data\<close> can do: a later record with
  no \<open>id\<close> (the first one having it) raises \<open>KeyError\<close>, and a JSON \<open>null\<close> for \<open>last_page\<close>
  raises \<open>TypeError\<close> at \<open>total_pages <= 1\<close>; neither is caught in the function.
\<close>

lemma fetch_calendesk_data_missing_id_raises:
  "served_through (paged_net ragged_pages) ragged_pages 2 \<and>
   fetch_calendesk_data (paged_net ragged_pages) = Some (Inl KeyError)"
  by code_simp

lemma fetch_calendesk_data_null_last_page_raises:
  "fetch_calendesk_data null_last_page_net = Some (Inl TypeError)"
  by code_simp

text \<open>
  C1. \<open>fetch_calendesk_data_all\<close> stops after \<open>max_pages = 10\<close> pages. On a server that
  holds more than 10 non-empty pages and serves every request, it returns the records of
  the first 10 pages only, fewer than the \<open>T = length (concat pages)\<close> records the server
  holds, while \<open>fetch_calendesk_data\<close> on the same server (records with an \<open>id\<close>) returns
  all \<open>T\<close> records.
\<close>

theorem fetch_all_stops_after_ten_pages:
  assumes "list_all (\<lambda>pg. pg \<noteq> []) pages" and "10 < length pages"
    and "served_through net pages (length pages)"
    and "list_all has_plain_id (concat pages)"
  shows "fetch_calendesk_data_all net = concat (take 10 pages) \<and>
         length (fetch_calendesk_data_all net) < length (concat pages) \<and>
         fetch_calendesk_data net = Some (Inr (concat pages))"
proof -
  from assms(2) have nonempty: "pages \<noteq> []" by auto
  from assms(2) have "11 - 1 \<le> length pages" by simp
  with assms(3) have ten: "served_through net pages (11 - 1)"
    by (rule served_through_prefix)
  from assms(2) have "11 \<le> Suc (length pages)" by simp
  with ten assms(1) have short: "fetch_calendesk_data_all net = concat (take (11 - 1) pages)"
    by (intro fetch_calendesk_data_all_stops_at) simp_all
  moreover from assms(1,2) have "length (concat (take 10 pages)) < length (concat pages)"
    by (rule truncated_is_shorter)
  moreover from assms(3) have "served_through net pages (Suc (length pages) - 1)" by simp
  with nonempty assms(1,4)
  have "fetch_calendesk_data net = Some (Inr (concat (take (Suc (length pages) - 1) pages)))"
    by (intro fetch_calendesk_data_stops_at) simp_all
  ultimately show ?thesis by simp
qed

theorem fetch_all_stops_after_ten_pages_witness:
  "served_through (paged_net eleven_pages) eleven_pages 11 \<and>
   length (concat eleven_pages) = 11 \<and>
   fetch_calendesk_data_all (paged_net eleven_pages) =
     [rec 1, rec 2, rec 3, rec 4, rec 5, rec 6, rec 7, rec 8, rec 9, rec 10] \<and>
   fetch_calendesk_data (paged_net eleven_pages) =
     Some (Inr [rec 1, rec 2, rec 3, rec 4, rec 5, rec 6, rec 7, rec 8, rec 9, rec 10, rec 11])"
proof -
  have len: "length eleven_pages = 11" by (simp add: eleven_pages_def)
  have pages: "list_all (\<lambda>pg. pg \<noteq> []) eleven_pages" "10 < length eleven_pages"
    by (simp_all add: eleven_pages_def)
  have served: "served_through (paged_net eleven_pages) eleven_pages 11"
    and ids: "list_all has_plain_id (concat eleven_pages)"
    by code_simp+
  from served len have "served_through (paged_net eleven_pages) eleven_pages (length eleven_pages)"
    by simp
  from fetch_all_stops_after_ten_pages [OF pages this ids] served
  show ?thesis by (simp add: eleven_pages_def)
qed

end
